theory Spec2Isabelle
  imports Complex_Main "HOL-Library.Monad_Syntax"
begin

section \<open>Flight-route tracking: the Route class of src/route/route.cpp\<close>

text \<open>
  Conventions of the embedding.
  \<^item> The C++ type \<open>float\<close> is read as \<open>real\<close>: sums and comparisons are the exact ones,
    rounding, infinities and NaN are outside the model.
  \<^item> \<open>int\<close> indices are mathematical integers; the sentinel \<open>INVALID_INDEX_VALUE\<close> is a
    constant of that type, compared the way the source compares it.
  \<^item> \<open>QList::at(i)\<close> outside \<open>0 \<le> i < size()\<close> is an assertion failure of the container:
    the model returns \<open>None\<close> there, and every function that indexes returns an option.
  \<^item> The geometry library, the leg class and the procedure query are used by route.cpp but
    are not part of it: their operations are the fields of the record \<open>Ext\<close>, a parameter
    of every function that calls them.
\<close>

subsection \<open>Data model\<close>

datatype CrossTrackStatus = INVALID | ALONG_TRACK | BEFORE_START | AFTER_END

record LineDistance =
  status :: CrossTrackStatus
  distance :: real
  distanceFrom1 :: real
  distanceFrom2 :: real

record 'p PosCourse =
  pos :: 'p
  course :: real

record 'p Line =
  pos1 :: 'p
  pos2 :: 'p

datatype ProcedureLegType =
  INVALID_LEG_TYPE | INITIAL_FIX | PROCEDURE_TURN
  | HOLD_TO_ALTITUDE | HOLD_TO_FIX | HOLD_TO_MANUAL_TERMINATION | OTHER_LEG_TYPE

record 'p MapProcedureLeg =
  legType :: ProcedureLegType
  procLine :: "'p Line"
  holdLine :: "'p Line"
  turnDirection :: string
  calculatedDistance :: real
  geometry :: "'p list"

text \<open>The flags of \<open>maptypes::MapObjectTypes\<close> that route.cpp tests; a bit mask is the set
  of its flags, and \<open>mask & FLAG\<close> is membership.\<close>

datatype ProcedureFlag =
  PROCEDURE_APPROACH | PROCEDURE_MISSED | PROCEDURE_TRANSITION | PROCEDURE_SID | PROCEDURE_STAR

datatype MapObjectType = NONE_TYPE | AIRPORT | VOR | NDB | WAYPOINT | USER | INVALID_TYPE

text \<open>A route leg: identity (object type, procedure tag, position, procedure leg detail)
  and the derived fields that the update passes recompute. \<open>procTag = None\<close> is a plain
  route point.\<close>

record 'p RouteLeg =
  mapObjectType :: MapObjectType
  procTag :: "ProcedureFlag option"
  position :: 'p
  procedureLeg :: "'p MapProcedureLeg"
  distanceTo :: real
  courseTo :: real
  courseRhumbTo :: real
  magvar :: real
  flightplanEntryIndex :: int

record 'p MapProcedureLegs =
  approachLegs :: "'p MapProcedureLeg list"
  transitionLegs :: "'p MapProcedureLeg list"

record ('e, 'q) Flightplan =
  entries :: "'e list"
  properties :: 'q

record ('p, 'e, 'q, 'b) Route =
  legs :: "'p RouteLeg list"
  flightplan :: "('e, 'q) Flightplan"
  totalDistance :: real
  shownTypes :: "ProcedureFlag set"
  boundingRect :: 'b
  activePos :: "'p PosCourse"
  trueCourse :: bool
  arrivalLegs :: "'p MapProcedureLegs"
  starLegs :: "'p MapProcedureLegs"
  departureLegs :: "'p MapProcedureLegs"
  departureLegsOffset :: int
  starLegsOffset :: int
  arrivalLegsOffset :: int
  activeLeg :: int
  activeLegResult :: LineDistance

text \<open>The collaborators of route.cpp whose code is outside it: the geometry library
  (\<open>atools::geo\<close>), the operations of \<open>RouteLeg\<close> on its derived fields, the procedure
  query and the bounding box of the map library.\<close>

record ('p, 'q, 'b) Ext =
  posIsValid :: "'p \<Rightarrow> bool"
  posCourseIsValid :: "'p PosCourse \<Rightarrow> bool"
  posEq :: "'p \<Rightarrow> 'p \<Rightarrow> bool"
  EMPTY_POS :: 'p
  defaultPos :: 'p
  distanceMeterToLine :: "'p \<Rightarrow> 'p \<Rightarrow> 'p \<Rightarrow> LineDistance"
  angleDegTo :: "'p \<Rightarrow> 'p \<Rightarrow> real"
  normalizeCourse :: "real \<Rightarrow> real"
  modF :: "real \<Rightarrow> real \<Rightarrow> real"
  nmToMeter :: "real \<Rightarrow> real"
  interpolate :: "'p \<Rightarrow> 'p \<Rightarrow> real \<Rightarrow> 'p"
  lineStringInterpolate :: "'p list \<Rightarrow> real \<Rightarrow> 'p"
  isApproachPoint :: "'p RouteLeg \<Rightarrow> bool"
  legDistanceAndCourse :: "int \<Rightarrow> 'p RouteLeg option \<Rightarrow> 'p RouteLeg \<Rightarrow> real \<times> real \<times> real"
  legMagvar :: "'p RouteLeg \<Rightarrow> real"
  legInvalidMagvar :: "int \<Rightarrow> 'p RouteLeg list \<Rightarrow> 'p RouteLeg \<Rightarrow> real"
  hasNavMagvar :: "MapObjectType \<Rightarrow> bool"
  boundingRectOf :: "'p list \<Rightarrow> 'b"
  clearProcedureProperties :: "'q \<Rightarrow> ProcedureFlag set \<Rightarrow> 'q"

text \<open>\<open>EMPTY_POS\<close> is the library's constant, \<open>defaultPos\<close> a default-constructed
  \<open>Pos()\<close>.\<close>

subsection \<open>Constants and accessors declared outside route.cpp\<close>

definition INVALID_INDEX_VALUE :: int where
  \<comment> \<open>Modelled from the spec: \<open>maptypes::INVALID_INDEX_VALUE\<close> is declared in a header that
      is not among the sources; the spec asks for a sentinel far outside any possible
      index, and the source compares it with \<open>>= size()\<close>: the largest 32-bit \<open>int\<close>.\<close>
  "INVALID_INDEX_VALUE = 2147483647"

definition INVALID_DISTANCE_VALUE :: real where
  \<comment> \<open>Modelled from the spec: \<open>maptypes::INVALID_DISTANCE_VALUE\<close>, a sentinel far outside
      any possible distance, which the source uses as the initial minimum of a search: the
      largest finite \<open>float\<close>.\<close>
  "INVALID_DISTANCE_VALUE = 340282346638528859811704183484516925440"

definition INVALID_COURSE_VALUE :: real where
  \<comment> \<open>Modelled from the spec: the course of a default-constructed \<open>PosCourse\<close>.\<close>
  "INVALID_COURSE_VALUE = 340282346638528859811704183484516925440"

definition isMissed :: "'p RouteLeg \<Rightarrow> bool" where
  \<comment> \<open>Modelled from the spec: the accessors of the leg's variant tag are in routeleg.h.\<close>
  "isMissed l = (procTag l = Some PROCEDURE_MISSED)"

definition isApproach :: "'p RouteLeg \<Rightarrow> bool" where
  \<comment> \<open>Modelled from the spec: an accessor of the variant tag, as \<open>isMissed\<close>.\<close>
  "isApproach l = (procTag l = Some PROCEDURE_APPROACH)"

definition isTransition :: "'p RouteLeg \<Rightarrow> bool" where
  \<comment> \<open>Modelled from the spec: an accessor of the variant tag, as \<open>isMissed\<close>.\<close>
  "isTransition l = (procTag l = Some PROCEDURE_TRANSITION)"

definition isSid :: "'p RouteLeg \<Rightarrow> bool" where
  \<comment> \<open>Modelled from the spec: an accessor of the variant tag, as \<open>isMissed\<close>.\<close>
  "isSid l = (procTag l = Some PROCEDURE_SID)"

definition isStar :: "'p RouteLeg \<Rightarrow> bool" where
  \<comment> \<open>Modelled from the spec: an accessor of the variant tag, as \<open>isMissed\<close>.\<close>
  "isStar l = (procTag l = Some PROCEDURE_STAR)"

definition isAnyProcedure :: "'p RouteLeg \<Rightarrow> bool" where
  \<comment> \<open>Modelled from the spec: a leg with any procedure variant, not a plain route point.\<close>
  "isAnyProcedure l = (procTag l \<noteq> None)"

definition isHold :: "'p RouteLeg \<Rightarrow> bool" where
  \<comment> \<open>Modelled from the spec: a leg is a hold when its procedure leg has one of the hold
      types.\<close>
  "isHold l = (legType (procedureLeg l) \<in> {HOLD_TO_ALTITUDE, HOLD_TO_FIX, HOLD_TO_MANUAL_TERMINATION})"

definition procLegsIsEmpty :: "'p MapProcedureLegs \<Rightarrow> bool" where
  \<comment> \<open>Modelled from the spec: \<open>MapProcedureLegs::isEmpty\<close>, no approach and no transition
      leg.\<close>
  "procLegsIsEmpty ls = (approachLegs ls = [] \<and> transitionLegs ls = [])"

definition emptyProcedureLegs :: "'p MapProcedureLegs" where
  \<comment> \<open>Modelled from the spec: the default-constructed \<open>MapProcedureLegs()\<close>, without legs.\<close>
  "emptyProcedureLegs = \<lparr>approachLegs = [], transitionLegs = []\<rparr>"

definition hasArrivalProcedure :: "('p, 'e, 'q, 'b) Route \<Rightarrow> bool" where
  \<comment> \<open>Modelled from the spec: the four \<open>has...Procedure\<close> tests of route.h say whether the
      procedure category is present.\<close>
  "hasArrivalProcedure r = (approachLegs (arrivalLegs r) \<noteq> [])"

definition hasTransitionProcedure :: "('p, 'e, 'q, 'b) Route \<Rightarrow> bool" where
  \<comment> \<open>Modelled from the spec: the arrival carries a transition.\<close>
  "hasTransitionProcedure r = (transitionLegs (arrivalLegs r) \<noteq> [])"

definition hasStarProcedure :: "('p, 'e, 'q, 'b) Route \<Rightarrow> bool" where
  \<comment> \<open>Modelled from the spec: the STAR is present.\<close>
  "hasStarProcedure r = (\<not> procLegsIsEmpty (starLegs r))"

definition hasDepartureProcedure :: "('p, 'e, 'q, 'b) Route \<Rightarrow> bool" where
  \<comment> \<open>Modelled from the spec: the departure procedure is present.\<close>
  "hasDepartureProcedure r = (\<not> procLegsIsEmpty (departureLegs r))"

subsection \<open>The list of legs\<close>

definition routeSize :: "('p, 'e, 'q, 'b) Route \<Rightarrow> int" where
  "routeSize r = int (length (legs r))"

definition isEmpty :: "('p, 'e, 'q, 'b) Route \<Rightarrow> bool" where
  "isEmpty r = (legs r = [])"

definition atIdx :: "'a list \<Rightarrow> int \<Rightarrow> 'a option" where
  "atIdx xs i = (if 0 \<le> i \<and> i < int (length xs) then Some (xs ! nat i) else None)"

definition getPositionAt :: "('p, 'e, 'q, 'b) Route \<Rightarrow> int \<Rightarrow> 'p option" where
  "getPositionAt r i = map_option position (atIdx (legs r) i)"

subsection \<open>Active leg\<close>

definition resetActive :: "('p, 'q, 'b) Ext \<Rightarrow> ('p, 'e, 'q, 'b) Route \<Rightarrow> ('p, 'e, 'q, 'b) Route" where
  "resetActive X r =
     r\<lparr>activeLegResult :=
         \<lparr>status = INVALID, distance = INVALID_DISTANCE_VALUE,
          distanceFrom1 = INVALID_DISTANCE_VALUE, distanceFrom2 = INVALID_DISTANCE_VALUE\<rparr>,
       activePos := \<lparr>pos = defaultPos X, course = INVALID_COURSE_VALUE\<rparr>,
       activeLeg := INVALID_INDEX_VALUE\<rparr>"

definition isSmaller :: "LineDistance \<Rightarrow> LineDistance \<Rightarrow> real \<Rightarrow> bool" where
  "isSmaller dist1 dist2 epsilon = (\<bar>distance dist1\<bar> < \<bar>distance dist2\<bar> + epsilon)"

text \<open>One iteration of the scan of \<open>nearestAllLegIndex\<close>: the state is
  (minDistance, crossTrackDistanceMeter, index). The loop runs \<open>i\<close> from 1 below
  \<open>size()\<close>, so both reads of the leg list are in range.\<close>

definition nearestStep ::
  "('p, 'q, 'b) Ext \<Rightarrow> 'p RouteLeg list \<Rightarrow> 'p \<Rightarrow> real \<times> real \<times> int \<Rightarrow> nat \<Rightarrow> real \<times> real \<times> int" where
  "nearestStep X ls p s i =
     (case s of (minDistance, cross, idx) \<Rightarrow>
        let result = distanceMeterToLine X p (position (ls ! (i - 1))) (position (ls ! i));
            d = \<bar>distance result\<bar>
        in if status result \<noteq> INVALID \<and> d < minDistance then (d, distance result, int i)
           else (minDistance, cross, idx))"

definition nearestAllLegIndex ::
  "('p, 'q, 'b) Ext \<Rightarrow> ('p, 'e, 'q, 'b) Route \<Rightarrow> 'p PosCourse \<Rightarrow> real \<times> int" where
  "nearestAllLegIndex X r pc =
     (if \<not> posCourseIsValid X pc then (INVALID_DISTANCE_VALUE, INVALID_INDEX_VALUE)
      else
        case foldl (nearestStep X (legs r) (pos pc))
               (INVALID_DISTANCE_VALUE, INVALID_DISTANCE_VALUE, INVALID_INDEX_VALUE)
               [1 ..< length (legs r)] of
          (minDistance, cross, idx) \<Rightarrow>
            if cross < INVALID_DISTANCE_VALUE \<and> \<bar>cross\<bar> > nmToMeter X 100
            then (INVALID_DISTANCE_VALUE, INVALID_INDEX_VALUE)
            else (cross, idx))"

text \<open>The while loop that skips initial fixes after a hold: it reads \<open>at(nextLeg)\<close> first
  and tests the bound second.\<close>

function skipInitialFixes :: "'p RouteLeg list \<Rightarrow> int \<Rightarrow> int option" where
  "skipInitialFixes ls n =
     (case atIdx ls n of
        None \<Rightarrow> None
      | Some l \<Rightarrow>
          if legType (procedureLeg l) = INITIAL_FIX \<and> n < int (length ls) - 2
          then skipInitialFixes ls (n + 1) else Some n)"
  by pat_completeness auto
termination
  by (relation "measure (\<lambda>(ls, n). nat (int (length ls) - n))") auto

declare skipInitialFixes.simps [simp del]

definition courseDifference :: "('p, 'q, 'b) Ext \<Rightarrow> 'p PosCourse \<Rightarrow> 'p \<Rightarrow> 'p \<Rightarrow> real" where
  "courseDifference X pc p1 p2 =
     (let legCrs = normalizeCourse X (angleDegTo X p1 p2);
          courseDiff = modF X (course pc - legCrs + 360) 360
      in if courseDiff > 180 then 360 - courseDiff else courseDiff)"

definition lineDistanceMeterToLine :: "('p, 'q, 'b) Ext \<Rightarrow> 'p Line \<Rightarrow> 'p \<Rightarrow> LineDistance" where
  \<comment> \<open>Modelled from the spec: \<open>Line::distanceMeterToLine(pos)\<close> is the distance of the
      position to the line from the first to the second point of the line.\<close>
  "lineDistanceMeterToLine X l p = distanceMeterToLine X p (pos1 l) (pos2 l)"

text \<open>The decision \<open>switchToNextLeg\<close> of \<open>updateActiveLegAndPos\<close>, from the active leg,
  the candidate leg, the sampled position and the two line distances.\<close>

definition switchToNextLeg ::
  "('p, 'q, 'b) Ext \<Rightarrow> 'p RouteLeg \<Rightarrow> 'p RouteLeg \<Rightarrow> 'p \<Rightarrow> LineDistance \<Rightarrow> LineDistance \<Rightarrow> real \<Rightarrow> bool" where
  "switchToNextLeg X active nxt p activeRes nextRes courseDiff =
     (if isHold active then
        (if posEq X (pos1 (procLine (procedureLeg nxt))) (position active) then
           status nextRes = ALONG_TRACK \<and>
           \<bar>distance nextRes\<bar> < nmToMeter X 0.5 \<and>
           distanceFrom1 nextRes > nmToMeter X 0.75 \<and>
           courseDiff < 25
         else
           (let resultHold = lineDistanceMeterToLine X (holdLine (procedureLeg active)) p
            in status resultHold = ALONG_TRACK \<and>
               distance resultHold <
                 nmToMeter X (if turnDirection (procedureLeg active) = ''R'' then - 0.5 else 0.5)))
      else if isHold nxt then \<bar>distance nextRes\<bar> < nmToMeter X 0.5
      else if legType (procedureLeg active) = PROCEDURE_TURN then
        isSmaller nextRes activeRes 100 \<and> courseDiff < 45
      else
        status activeRes = AFTER_END \<or> (isSmaller nextRes activeRes 10 \<and> courseDiff < 90))"

text \<open>The part of \<open>updateActiveLegAndPos\<close> after the active leg and its line distance are
  set: the candidate leg, the decision, the veto for hidden missed approach legs.\<close>

definition advanceActiveLeg ::
  "('p, 'q, 'b) Ext \<Rightarrow> ('p, 'e, 'q, 'b) Route \<Rightarrow> 'p PosCourse \<Rightarrow> ('p, 'e, 'q, 'b) Route option" where
  "advanceActiveLeg X r pc =
     (if activeLeg r + 1 < routeSize r then
        do {
          active \<leftarrow> atIdx (legs r) (activeLeg r);
          nextLeg \<leftarrow> (if isHold active then skipInitialFixes (legs r) (activeLeg r + 1)
                      else Some (activeLeg r + 1));
          p1 \<leftarrow> getPositionAt r (nextLeg - 1);
          p2 \<leftarrow> getPositionAt r nextLeg;
          nxt \<leftarrow> atIdx (legs r) nextLeg;
          let courseDiff = courseDifference X pc p1 p2;
          let nextLegResult = distanceMeterToLine X (pos (activePos r)) p1 p2;
          if switchToNextLeg X active nxt (pos (activePos r)) (activeLegResult r) nextLegResult courseDiff
             \<and> \<not> (PROCEDURE_MISSED \<notin> shownTypes r \<and> isMissed nxt)
          then Some (r\<lparr>activeLeg := nextLeg,
                       activeLegResult := distanceMeterToLine X (pos pc) p1 p2\<rparr>)
          else Some r
        }
      else Some r)"

definition updateActiveLegAndPos ::
  "('p, 'q, 'b) Ext \<Rightarrow> ('p, 'e, 'q, 'b) Route \<Rightarrow> 'p PosCourse \<Rightarrow> ('p, 'e, 'q, 'b) Route option" where
  "updateActiveLegAndPos X r pc =
     (if isEmpty r \<or> \<not> posCourseIsValid X pc then Some (resetActive X r)
      else
        let a0 = (if activeLeg r = INVALID_INDEX_VALUE then snd (nearestAllLegIndex X r pc)
                  else activeLeg r);
            a1 = (if a0 \<ge> routeSize r then routeSize r - 1 else a0)
        in if routeSize r = 1 then
             do {
               f \<leftarrow> getPositionAt r 0;
               advanceActiveLeg X
                 (r\<lparr>activePos := pc, activeLeg := 0,
                    activeLegResult := distanceMeterToLine X (pos pc) f f\<rparr>) pc
             }
           else
             let a2 = (if a1 = 0 then 1 else a1) in
             do {
               q1 \<leftarrow> getPositionAt r (a2 - 1);
               q2 \<leftarrow> getPositionAt r a2;
               advanceActiveLeg X
                 (r\<lparr>activePos := pc, activeLeg := a2,
                    activeLegResult := distanceMeterToLine X (pos pc) q1 q2\<rparr>) pc
             })"

text \<open>The state in which \<open>updateActiveLegAndPos\<close> enters the advancement when the active
  leg is already an index of a route of more than one leg: the sample is stored and the
  line distance of the active leg is recomputed.\<close>

definition trackedRoute ::
  "('p, 'q, 'b) Ext \<Rightarrow> ('p, 'e, 'q, 'b) Route \<Rightarrow> 'p PosCourse \<Rightarrow> ('p, 'e, 'q, 'b) Route" where
  "trackedRoute X r pc =
     r\<lparr>activePos := pc, activeLeg := activeLeg r,
       activeLegResult := distanceMeterToLine X (pos pc)
          (position (legs r ! nat (activeLeg r - 1))) (position (legs r ! nat (activeLeg r)))\<rparr>"

text \<open>The index with which \<open>updateActiveLegAndPos\<close> enters the advancement on a non-empty
  route: the active leg, or the nearest leg when there is none yet, clamped to the last
  leg, 0 on a route of one leg and never 0 on a longer route.\<close>

definition enteredIndex ::
  "('p, 'q, 'b) Ext \<Rightarrow> ('p, 'e, 'q, 'b) Route \<Rightarrow> 'p PosCourse \<Rightarrow> int" where
  "enteredIndex X r pc =
     (let a0 = (if activeLeg r = INVALID_INDEX_VALUE then snd (nearestAllLegIndex X r pc)
                else activeLeg r);
          a1 = (if a0 \<ge> routeSize r then routeSize r - 1 else a0)
      in if routeSize r = 1 then 0 else if a1 = 0 then 1 else a1)"

definition getActiveLegIndexCorrected ::
  "('p, 'e, 'q, 'b) Route \<Rightarrow> bool option \<Rightarrow> (int \<times> bool option) option" where
  \<comment> \<open>The out-parameter \<open>bool *corrected\<close>: \<open>None\<close> is the null pointer, \<open>Some b\<close> the pointed
      value; the second component of the result is the value after the call.\<close>
  "getActiveLegIndexCorrected r corrected =
     (if activeLeg r = INVALID_INDEX_VALUE then Some (INVALID_INDEX_VALUE, corrected)
      else
        let nextLeg = activeLeg r + 1 in
        if nextLeg < routeSize r \<and> nextLeg = routeSize r then
          do {
            l \<leftarrow> atIdx (legs r) nextLeg;
            if isAnyProcedure l then Some (activeLeg r + 1, map_option (\<lambda>_. True) corrected)
            else Some (activeLeg r, map_option (\<lambda>_. False) corrected)
          }
        else Some (activeLeg r, map_option (\<lambda>_. False) corrected))"

subsection \<open>Distances\<close>

definition isAirportAfterArrival :: "('p, 'e, 'q, 'b) Route \<Rightarrow> int \<Rightarrow> bool option" where
  "isAirportAfterArrival r index =
     (if (hasArrivalProcedure r \<or> hasStarProcedure r) \<and> index = routeSize r - 1
      then map_option (\<lambda>l. mapObjectType l = AIRPORT) (atIdx (legs r) index)
      else Some False)"

definition updateDistanceAndCourse ::
  "('p, 'q, 'b) Ext \<Rightarrow> int \<Rightarrow> 'p RouteLeg option \<Rightarrow> 'p RouteLeg \<Rightarrow> 'p RouteLeg" where
  \<comment> \<open>Modelled from the spec: \<open>RouteLeg::updateDistanceAndCourse\<close> sets the distance to the
      previous leg and the courses of this leg, and nothing else.\<close>
  "updateDistanceAndCourse X i lastLeg l =
     (case legDistanceAndCourse X i lastLeg l of
        (d, c, cr) \<Rightarrow> l\<lparr>distanceTo := d, courseTo := c, courseRhumbTo := cr\<rparr>)"

text \<open>The body of the loop of \<open>updateDistancesAndCourse\<close> at index \<open>i\<close>, with the pointer
  \<open>last\<close> to the leg updated before: the leg is updated in place and, unless it is a missed
  approach leg, its distance is added to the total.\<close>

definition updateDistanceStep ::
  "('p, 'q, 'b) Ext \<Rightarrow> ('p, 'e, 'q, 'b) Route \<Rightarrow> nat \<Rightarrow> 'p RouteLeg option
     \<Rightarrow> ('p, 'e, 'q, 'b) Route" where
  "updateDistanceStep X r i lastLeg =
     (let mapobj = updateDistanceAndCourse X (int i) lastLeg (legs r ! i)
      in r\<lparr>legs := (legs r)[i := mapobj],
           totalDistance := (if \<not> isMissed mapobj then totalDistance r + distanceTo mapobj
                             else totalDistance r)\<rparr>)"

text \<open>The loop, from index \<open>i\<close>; it stops at a trailing airport after an arrival.\<close>

function updateDistancesLoop ::
  "('p, 'q, 'b) Ext \<Rightarrow> ('p, 'e, 'q, 'b) Route \<Rightarrow> nat \<Rightarrow> 'p RouteLeg option
     \<Rightarrow> ('p, 'e, 'q, 'b) Route option" where
  "updateDistancesLoop X r i lastLeg =
     (if i < length (legs r) then
        (case isAirportAfterArrival r (int i) of
           None \<Rightarrow> None
         | Some True \<Rightarrow> Some r
         | Some False \<Rightarrow>
             updateDistancesLoop X (updateDistanceStep X r i lastLeg) (Suc i)
               (Some (legs (updateDistanceStep X r i lastLeg) ! i)))
      else Some r)"
  by pat_completeness auto
termination
  by (relation "measure (\<lambda>(X, r, i, lastLeg). length (legs r) - i)")
     (auto simp: updateDistanceStep_def Let_def)

declare updateDistancesLoop.simps [simp del]

definition updateDistancesAndCourse ::
  "('p, 'q, 'b) Ext \<Rightarrow> ('p, 'e, 'q, 'b) Route \<Rightarrow> ('p, 'e, 'q, 'b) Route option" where
  "updateDistancesAndCourse X r = updateDistancesLoop X (r\<lparr>totalDistance := 0\<rparr>) 0 None"

text \<open>The sum the specification gives for the total distance: the legs before a trailing
  airport after an arrival, the missed approach legs left out.\<close>

definition legsBeforeAirportAfterArrival :: "('p, 'e, 'q, 'b) Route \<Rightarrow> 'p RouteLeg list" where
  "legsBeforeAirportAfterArrival r =
     (if isAirportAfterArrival r (routeSize r - 1) = Some True then butlast (legs r) else legs r)"

definition specTotalDistance :: "('p, 'e, 'q, 'b) Route \<Rightarrow> real" where
  "specTotalDistance r =
     sum_list (map distanceTo (filter (\<lambda>l. \<not> isMissed l) (legsBeforeAirportAfterArrival r)))"

subsection \<open>The update passes\<close>

definition updateIndices :: "('p, 'e, 'q, 'b) Route \<Rightarrow> ('p, 'e, 'q, 'b) Route" where
  \<comment> \<open>\<open>setFlightplanEntryIndex(i)\<close> stores the index in the leg.\<close>
  "updateIndices r =
     r\<lparr>legs := map (\<lambda>(i, l). l\<lparr>flightplanEntryIndex := int i\<rparr>) (enumerate 0 (legs r))\<rparr>"

definition updateInvalidMagvarStep ::
  "('p, 'q, 'b) Ext \<Rightarrow> 'p RouteLeg list \<Rightarrow> nat \<Rightarrow> 'p RouteLeg list" where
  "updateInvalidMagvarStep X ls i = ls[i := (ls ! i)\<lparr>magvar := legInvalidMagvar X (int i) ls (ls ! i)\<rparr>]"

definition updateMagvar :: "('p, 'q, 'b) Ext \<Rightarrow> ('p, 'e, 'q, 'b) Route \<Rightarrow> ('p, 'e, 'q, 'b) Route" where
  \<comment> \<open>Modelled from the spec: \<open>RouteLeg::updateMagvar\<close> and \<open>updateInvalidMagvar\<close> set the
      magnetic variation of the leg, and nothing else.\<close>
  "updateMagvar X r =
     (let ls1 = map (\<lambda>l. l\<lparr>magvar := legMagvar X l\<rparr>) (legs r);
          ls2 = foldl (updateInvalidMagvarStep X) ls1 [0 ..< length ls1]
      in r\<lparr>legs := ls2,
           trueCourse := \<not> list_ex (\<lambda>l. hasNavMagvar X (mapObjectType l)) ls2\<rparr>)"

definition updateBoundingRect :: "('p, 'q, 'b) Ext \<Rightarrow> ('p, 'e, 'q, 'b) Route \<Rightarrow> ('p, 'e, 'q, 'b) Route" where
  "updateBoundingRect X r = r\<lparr>boundingRect := boundingRectOf X (map position (legs r))\<rparr>"

definition updateAll :: "('p, 'q, 'b) Ext \<Rightarrow> ('p, 'e, 'q, 'b) Route \<Rightarrow> ('p, 'e, 'q, 'b) Route option" where
  "updateAll X r =
     map_option (updateBoundingRect X) (updateDistancesAndCourse X (updateMagvar X (updateIndices r)))"

subsection \<open>Removing procedure legs\<close>

definition procedureMatches :: "ProcedureFlag set \<Rightarrow> 'p RouteLeg \<Rightarrow> bool" where
  "procedureMatches type routeLeg =
     ((PROCEDURE_APPROACH \<in> type \<and> isApproach routeLeg) \<or>
      (PROCEDURE_MISSED \<in> type \<and> isMissed routeLeg) \<or>
      (PROCEDURE_TRANSITION \<in> type \<and> isTransition routeLeg) \<or>
      (PROCEDURE_SID \<in> type \<and> isSid routeLeg) \<or>
      (PROCEDURE_STAR \<in> type \<and> isStar routeLeg))"

definition removeAt :: "'a list \<Rightarrow> nat \<Rightarrow> 'a list" where
  \<comment> \<open>\<open>QList::removeAt\<close> does nothing for an index outside the list.\<close>
  "removeAt xs i = (if i < length xs then take i xs @ drop (Suc i) xs else xs)"

definition eraseIndexes :: "ProcedureFlag set \<Rightarrow> 'p RouteLeg list \<Rightarrow> nat list" where
  "eraseIndexes type ls = filter (\<lambda>i. procedureMatches type (ls ! i)) (rev [0 ..< length ls])"

definition eraseStep :: "('p, 'e, 'q, 'b) Route \<Rightarrow> nat \<Rightarrow> ('p, 'e, 'q, 'b) Route" where
  "eraseStep r i =
     r\<lparr>legs := removeAt (legs r) i,
       flightplan := (flightplan r)\<lparr>entries := removeAt (entries (flightplan r)) i\<rparr>\<rparr>"

definition eraseProcedureLegs :: "ProcedureFlag set \<Rightarrow> ('p, 'e, 'q, 'b) Route \<Rightarrow> ('p, 'e, 'q, 'b) Route" where
  "eraseProcedureLegs type r = foldl eraseStep r (eraseIndexes type (legs r))"

definition clearFlightplanProcedureProperties ::
  "('p, 'q, 'b) Ext \<Rightarrow> ProcedureFlag set \<Rightarrow> ('p, 'e, 'q, 'b) Route \<Rightarrow> ('p, 'e, 'q, 'b) Route" where
  "clearFlightplanProcedureProperties X type r =
     r\<lparr>flightplan := (flightplan r)\<lparr>properties := clearProcedureProperties X (properties (flightplan r)) type\<rparr>\<rparr>"

definition PROCEDURE_ARRIVAL :: "ProcedureFlag set" where
  \<comment> \<open>Modelled from the spec: the mask of the arrival category, the approach with its
      missed approach and its transition.\<close>
  "PROCEDURE_ARRIVAL = {PROCEDURE_APPROACH, PROCEDURE_MISSED, PROCEDURE_TRANSITION}"

definition PROCEDURE_DEPARTURE :: "ProcedureFlag set" where
  \<comment> \<open>Modelled from the spec: the mask of the departure category.\<close>
  "PROCEDURE_DEPARTURE = {PROCEDURE_SID}"

definition clearApproachAndTransProcedure ::
  "('p, 'q, 'b) Ext \<Rightarrow> ('p, 'e, 'q, 'b) Route \<Rightarrow> ('p, 'e, 'q, 'b) Route option" where
  "clearApproachAndTransProcedure X r =
     (if hasArrivalProcedure r then
        updateAll X (eraseProcedureLegs PROCEDURE_ARRIVAL
          (clearFlightplanProcedureProperties X PROCEDURE_ARRIVAL (r\<lparr>arrivalLegs := emptyProcedureLegs\<rparr>)))
      else Some r)"

definition clearTransitionProcedure ::
  "('p, 'q, 'b) Ext \<Rightarrow> ('p, 'e, 'q, 'b) Route \<Rightarrow> ('p, 'e, 'q, 'b) Route option" where
  \<comment> \<open>\<open>arrivalLegs.clearTransition()\<close> empties the transition legs of the arrival.\<close>
  "clearTransitionProcedure X r =
     (if hasTransitionProcedure r then
        updateAll X (eraseProcedureLegs {PROCEDURE_TRANSITION}
          (clearFlightplanProcedureProperties X {PROCEDURE_TRANSITION}
             (r\<lparr>arrivalLegs := (arrivalLegs r)\<lparr>transitionLegs := []\<rparr>\<rparr>)))
      else Some r)"

definition clearStarProcedure ::
  "('p, 'q, 'b) Ext \<Rightarrow> ('p, 'e, 'q, 'b) Route \<Rightarrow> ('p, 'e, 'q, 'b) Route option" where
  "clearStarProcedure X r =
     (if hasStarProcedure r then
        updateAll X (eraseProcedureLegs {PROCEDURE_STAR}
          (clearFlightplanProcedureProperties X {PROCEDURE_STAR} (r\<lparr>starLegs := emptyProcedureLegs\<rparr>)))
      else Some r)"

definition clearDepartureProcedure ::
  "('p, 'q, 'b) Ext \<Rightarrow> ('p, 'e, 'q, 'b) Route \<Rightarrow> ('p, 'e, 'q, 'b) Route option" where
  "clearDepartureProcedure X r =
     (if hasDepartureProcedure r then
        updateAll X (eraseProcedureLegs PROCEDURE_DEPARTURE
          (clearFlightplanProcedureProperties X PROCEDURE_DEPARTURE (r\<lparr>departureLegs := emptyProcedureLegs\<rparr>)))
      else Some r)"

subsection \<open>Position at a distance\<close>

text \<open>The search loop of \<open>positionAtDistance\<close>: \<open>i\<close> runs from 0 below \<open>size() - 1\<close> and reads
  \<open>at(i + 1)\<close>, so the loop walks the legs after the first; the result is the running
  total and \<open>foundIndex\<close>.\<close>

fun findDistanceLeg :: "'p RouteLeg list \<Rightarrow> real \<Rightarrow> int \<Rightarrow> real \<Rightarrow> real \<times> int" where
  "findDistanceLeg [] distFromStartNm i totalNm = (totalNm, INVALID_INDEX_VALUE)"
| "findDistanceLeg (l # ls) distFromStartNm i totalNm =
     (if totalNm + distanceTo l > distFromStartNm then (totalNm + distanceTo l, i)
      else findDistanceLeg ls distFromStartNm (i + 1) (totalNm + distanceTo l))"

function skipApproachPoints :: "('p, 'q, 'b) Ext \<Rightarrow> 'p RouteLeg list \<Rightarrow> int \<Rightarrow> int option" where
  "skipApproachPoints X ls n =
     (case atIdx ls n of
        None \<Rightarrow> None
      | Some l \<Rightarrow>
          if isApproachPoint X l \<and> n < int (length ls)
          then skipApproachPoints X ls (n + 1) else Some n)"
  by pat_completeness auto
termination
  by (relation "measure (\<lambda>(X, ls, n). nat (int (length ls) - n))") auto

declare skipApproachPoints.simps [simp del]

definition positionAtDistance ::
  "('p, 'q, 'b) Ext \<Rightarrow> ('p, 'e, 'q, 'b) Route \<Rightarrow> real \<Rightarrow> 'p option" where
  "positionAtDistance X r distFromStartNm =
     (if distFromStartNm < 0 \<or> distFromStartNm > totalDistance r then Some (EMPTY_POS X)
      else
        case findDistanceLeg (tl (legs r)) distFromStartNm 0 0 of
          (totalNm, foundIndex) \<Rightarrow>
            if foundIndex < routeSize r - 1 then
              do {
                l \<leftarrow> atIdx (legs r) foundIndex;
                if \<not> isAnyProcedure l then
                  do {
                    l1 \<leftarrow> atIdx (legs r) (foundIndex + 1);
                    p0 \<leftarrow> getPositionAt r foundIndex;
                    p1 \<leftarrow> getPositionAt r (foundIndex + 1);
                    Some (interpolate X p0 p1
                            ((distFromStartNm - (totalNm - distanceTo l1)) / distanceTo l1))
                  }
                else
                  do {
                    fi \<leftarrow> skipApproachPoints X (legs r) (foundIndex + 1);
                    lf \<leftarrow> atIdx (legs r) fi;
                    Some (lineStringInterpolate X (geometry (procedureLeg lf))
                            ((distFromStartNm - (totalNm - calculatedDistance (procedureLeg lf)))
                               / calculatedDistance (procedureLeg lf)))
                  }
              }
            else Some (defaultPos X))"

subsection \<open>The claims as the specification words them\<close>

text \<open>Rules 5d and 5e of the specification, read literally: the candidate's absolute
  cross-track distance is smaller than the active leg's by more than the margin.\<close>

definition claimedPlainSwitch :: "'p RouteLeg \<Rightarrow> LineDistance \<Rightarrow> LineDistance \<Rightarrow> real \<Rightarrow> bool" where
  "claimedPlainSwitch active activeRes nextRes courseDiff =
     (if legType (procedureLeg active) = PROCEDURE_TURN then
        \<bar>distance nextRes\<bar> + 100 < \<bar>distance activeRes\<bar> \<and> courseDiff < 45
      else
        status activeRes = AFTER_END \<or>
        (\<bar>distance nextRes\<bar> + 10 < \<bar>distance activeRes\<bar> \<and> courseDiff < 90))"

text \<open>Rule 5b of the specification, read literally: the threshold is +0.5 nm for a right
  turn and -0.5 nm for any other turn direction.\<close>

definition claimedHoldExit :: "('p, 'q, 'b) Ext \<Rightarrow> 'p RouteLeg \<Rightarrow> 'p \<Rightarrow> bool" where
  "claimedHoldExit X active p =
     (let resultHold = lineDistanceMeterToLine X (holdLine (procedureLeg active)) p
      in status resultHold = ALONG_TRACK \<and>
         distance resultHold <
           nmToMeter X (if turnDirection (procedureLeg active) = ''R'' then 0.5 else - 0.5))"

text \<open>What a leg is, apart from the fields the update passes recompute.\<close>

definition legIdentity ::
  "'p RouteLeg \<Rightarrow> MapObjectType \<times> ProcedureFlag option \<times> 'p \<times> 'p MapProcedureLeg" where
  "legIdentity l = (mapObjectType l, procTag l, position l, procedureLeg l)"

text \<open>The state outside the legs that the update passes leave alone: the flight plan, the
  three offsets and the three procedures.\<close>

definition procedureFrame ::
  "('p, 'e, 'q, 'b) Route \<Rightarrow>
     ('e, 'q) Flightplan \<times> int \<times> int \<times> int \<times> 'p MapProcedureLegs \<times> 'p MapProcedureLegs \<times> 'p MapProcedureLegs" where
  "procedureFrame r =
     (flightplan r, departureLegsOffset r, starLegsOffset r, arrivalLegsOffset r,
      departureLegs r, starLegs r, arrivalLegs r)"

text \<open>The sum of the distances of the legs of a list that are not missed approach legs.\<close>

definition nonMissedSum :: "'p RouteLeg list \<Rightarrow> real" where
  "nonMissedSum ls = sum_list (map distanceTo (filter (\<lambda>l. \<not> isMissed l) ls))"

subsection \<open>A flat test geometry and test routes\<close>

text \<open>Positions are (east, north) in metres; the legs of the test routes lie on the
  east axis and point east. Along a leg the distance is the lateral offset, before and
  after it the distance to the nearer end.\<close>

definition flatDistance :: "real \<times> real \<Rightarrow> real \<times> real \<Rightarrow> real \<times> real \<Rightarrow> LineDistance" where
  "flatDistance p a b =
     \<lparr>status = (if fst p < fst a then BEFORE_START
                else if fst p > fst b then AFTER_END else ALONG_TRACK),
      distance = (if fst p < fst a then (fst a - fst p) + \<bar>snd p\<bar>
                  else if fst p > fst b then (fst p - fst b) + \<bar>snd p\<bar> else snd p),
      distanceFrom1 = \<bar>fst p - fst a\<bar> + \<bar>snd p\<bar>,
      distanceFrom2 = \<bar>fst p - fst b\<bar> + \<bar>snd p\<bar>\<rparr>"

definition flatInvalidPos :: "real \<times> real" where
  "flatInvalidPos = (INVALID_DISTANCE_VALUE, INVALID_DISTANCE_VALUE)"

definition flatExt :: "(real \<times> real, unit, unit) Ext" where
  "flatExt =
     \<lparr>posIsValid = (\<lambda>p. p \<noteq> flatInvalidPos),
      posCourseIsValid = (\<lambda>pc. pos pc \<noteq> flatInvalidPos),
      posEq = (\<lambda>p q. p = q),
      EMPTY_POS = flatInvalidPos,
      defaultPos = flatInvalidPos,
      distanceMeterToLine = flatDistance,
      angleDegTo = (\<lambda>p q. if fst p \<le> fst q then 90 else 270),
      normalizeCourse = (\<lambda>c. c),
      modF = (\<lambda>x y. if y \<le> x then x - y else x),
      nmToMeter = (\<lambda>x. x * 1852),
      interpolate = (\<lambda>p q f. (fst p + f * (fst q - fst p), snd p + f * (snd q - snd p))),
      lineStringInterpolate = (\<lambda>ps f. case ps of [] \<Rightarrow> flatInvalidPos | q # qs \<Rightarrow> q),
      isApproachPoint = (\<lambda>l. isAnyProcedure l \<and> legType (procedureLeg l) = INITIAL_FIX),
      legDistanceAndCourse =
        (\<lambda>i lastLeg l. case lastLeg of None \<Rightarrow> (0, 0, 0)
                        | Some l0 \<Rightarrow> (\<bar>fst (position l) - fst (position l0)\<bar> / 1852, 90, 90)),
      legMagvar = (\<lambda>l. 0),
      legInvalidMagvar = (\<lambda>i ls l. magvar l),
      hasNavMagvar = (\<lambda>t. t \<in> {AIRPORT, VOR, NDB, WAYPOINT}),
      boundingRectOf = (\<lambda>ps. ()),
      clearProcedureProperties = (\<lambda>q t. q)\<rparr>"

definition noProcedureLeg :: "(real \<times> real) MapProcedureLeg" where
  "noProcedureLeg =
     \<lparr>legType = INVALID_LEG_TYPE, procLine = \<lparr>pos1 = flatInvalidPos, pos2 = flatInvalidPos\<rparr>,
      holdLine = \<lparr>pos1 = flatInvalidPos, pos2 = flatInvalidPos\<rparr>, turnDirection = [],
      calculatedDistance = 0, geometry = []\<rparr>"

definition testLeg :: "MapObjectType \<Rightarrow> ProcedureFlag option \<Rightarrow> real \<Rightarrow> real \<Rightarrow> (real \<times> real) RouteLeg" where
  "testLeg t tag x d =
     \<lparr>mapObjectType = t, procTag = tag, position = (x, 0), procedureLeg = noProcedureLeg,
      distanceTo = d, courseTo = 90, courseRhumbTo = 90, magvar = 0, flightplanEntryIndex = 0\<rparr>"

definition testRoute :: "(real \<times> real) RouteLeg list \<Rightarrow> (real \<times> real, nat, unit, unit) Route" where
  "testRoute ls =
     \<lparr>legs = ls, flightplan = \<lparr>entries = [0 ..< length ls], properties = ()\<rparr>,
      totalDistance = 0, shownTypes = {}, boundingRect = (),
      activePos = \<lparr>pos = flatInvalidPos, course = INVALID_COURSE_VALUE\<rparr>, trueCourse = False,
      arrivalLegs = emptyProcedureLegs, starLegs = emptyProcedureLegs,
      departureLegs = emptyProcedureLegs,
      departureLegsOffset = INVALID_INDEX_VALUE, starLegsOffset = INVALID_INDEX_VALUE,
      arrivalLegsOffset = INVALID_INDEX_VALUE,
      activeLeg = INVALID_INDEX_VALUE,
      activeLegResult = \<lparr>status = INVALID, distance = INVALID_DISTANCE_VALUE,
                         distanceFrom1 = INVALID_DISTANCE_VALUE,
                         distanceFrom2 = INVALID_DISTANCE_VALUE\<rparr>\<rparr>"

text \<open>Four waypoints A, B, C, D, one kilometre apart.\<close>

definition route4 :: "(real \<times> real, nat, unit, unit) Route" where
  "route4 = testRoute [testLeg WAYPOINT None 0 0, testLeg WAYPOINT None 1000 1,
                       testLeg WAYPOINT None 2000 1, testLeg WAYPOINT None 3000 1]"

definition route2 :: "(real \<times> real, nat, unit, unit) Route" where
  "route2 = testRoute [testLeg WAYPOINT None 0 0, testLeg WAYPOINT None 1000 1]"

text \<open>A, a hold at B with its helper line from B eastwards, a procedure leg from a fix
  between B and C to C, and D. The hold is the active leg.\<close>

definition holdProcedureLeg :: "string \<Rightarrow> (real \<times> real) MapProcedureLeg" where
  "holdProcedureLeg dir =
     \<lparr>legType = HOLD_TO_FIX, procLine = \<lparr>pos1 = (0, 0), pos2 = (1000, 0)\<rparr>,
      holdLine = \<lparr>pos1 = (1000, 0), pos2 = (5000, 0)\<rparr>, turnDirection = dir,
      calculatedDistance = 0, geometry = []\<rparr>"

definition afterHoldProcedureLeg :: "(real \<times> real) MapProcedureLeg" where
  "afterHoldProcedureLeg =
     \<lparr>legType = OTHER_LEG_TYPE, procLine = \<lparr>pos1 = (1500, 0), pos2 = (2000, 0)\<rparr>,
      holdLine = \<lparr>pos1 = flatInvalidPos, pos2 = flatInvalidPos\<rparr>, turnDirection = [],
      calculatedDistance = 0, geometry = []\<rparr>"

definition holdRoute :: "string \<Rightarrow> (real \<times> real, nat, unit, unit) Route" where
  "holdRoute dir =
     (testRoute [testLeg AIRPORT None 0 0,
                 (testLeg WAYPOINT (Some PROCEDURE_APPROACH) 1000 1)\<lparr>procedureLeg := holdProcedureLeg dir\<rparr>,
                 (testLeg WAYPOINT (Some PROCEDURE_APPROACH) 2000 1)\<lparr>procedureLeg := afterHoldProcedureLeg\<rparr>,
                 testLeg AIRPORT None 3000 1])\<lparr>activeLeg := 1\<rparr>"

text \<open>A, B, a missed approach leg at C, and D; missed approach legs are not shown.\<close>

definition missedRoute :: "(real \<times> real, nat, unit, unit) Route" where
  "missedRoute =
     (testRoute [testLeg AIRPORT None 0 0, testLeg WAYPOINT (Some PROCEDURE_APPROACH) 1000 1,
                 testLeg WAYPOINT (Some PROCEDURE_MISSED) 2000 1,
                 testLeg AIRPORT None 3000 1])\<lparr>activeLeg := 1\<rparr>"

text \<open>A, a procedure turn at B, C and D; the procedure turn is the active leg.\<close>

definition turnRoute :: "(real \<times> real, nat, unit, unit) Route" where
  "turnRoute =
     (testRoute [testLeg AIRPORT None 0 0,
                 (testLeg WAYPOINT (Some PROCEDURE_APPROACH) 1000 1)
                    \<lparr>procedureLeg := noProcedureLeg\<lparr>legType := PROCEDURE_TURN\<rparr>\<rparr>,
                 testLeg WAYPOINT (Some PROCEDURE_APPROACH) 2000 1,
                 testLeg AIRPORT None 3000 1])\<lparr>activeLeg := 1\<rparr>"

text \<open>Departure airport, a waypoint, an approach leg, a missed approach leg and the
  destination airport, one nautical mile apart, with an arrival procedure; the stored
  distances are stale.\<close>

definition arrivalRoute :: "(real \<times> real, nat, unit, unit) Route" where
  "arrivalRoute =
     (testRoute [testLeg AIRPORT None 0 5, testLeg WAYPOINT None 1852 5,
                 testLeg WAYPOINT (Some PROCEDURE_APPROACH) 3704 5,
                 testLeg WAYPOINT (Some PROCEDURE_MISSED) 5556 5,
                 testLeg AIRPORT None 7408 5])
       \<lparr>arrivalLegs := \<lparr>approachLegs = [noProcedureLeg], transitionLegs = []\<rparr>\<rparr>"

text \<open>Departure airport, a departure leg, a waypoint, two STAR legs, an approach leg and
  the destination airport, with the three procedures and their offsets.\<close>

definition procedureRoute :: "(real \<times> real, nat, unit, unit) Route" where
  "procedureRoute =
     (testRoute [testLeg AIRPORT None 0 0, testLeg WAYPOINT (Some PROCEDURE_SID) 1852 1,
                 testLeg WAYPOINT None 3704 1,
                 testLeg WAYPOINT (Some PROCEDURE_STAR) 5556 1,
                 testLeg WAYPOINT (Some PROCEDURE_STAR) 7408 1,
                 testLeg WAYPOINT (Some PROCEDURE_APPROACH) 9260 1,
                 testLeg AIRPORT None 11112 1])
       \<lparr>departureLegs := \<lparr>approachLegs = [noProcedureLeg], transitionLegs = []\<rparr>,
        starLegs := \<lparr>approachLegs = [noProcedureLeg, noProcedureLeg], transitionLegs = []\<rparr>,
        arrivalLegs := \<lparr>approachLegs = [noProcedureLeg], transitionLegs = []\<rparr>,
        departureLegsOffset := 1, starLegsOffset := 3, arrivalLegsOffset := 5\<rparr>"

text \<open>An airport, an approach leg and an approach initial fix as the last leg, one
  nautical mile apart.\<close>

definition approachEndRoute :: "(real \<times> real, nat, unit, unit) Route" where
  "approachEndRoute =
     (testRoute [testLeg AIRPORT None 0 0,
                 testLeg WAYPOINT (Some PROCEDURE_APPROACH) 1852 1,
                 (testLeg WAYPOINT (Some PROCEDURE_APPROACH) 3704 1)
                    \<lparr>procedureLeg := noProcedureLeg\<lparr>legType := INITIAL_FIX\<rparr>\<rparr>])
       \<lparr>totalDistance := 2,
        arrivalLegs := \<lparr>approachLegs = [noProcedureLeg, noProcedureLeg], transitionLegs = []\<rparr>\<rparr>"

section \<open>Properties\<close>

text \<open>The unfoldings that evaluate the test routes.\<close>

lemmas fix_defs = route4_def route2_def testRoute_def testLeg_def flatExt_def flatDistance_def
  noProcedureLeg_def flatInvalidPos_def INVALID_DISTANCE_VALUE_def INVALID_INDEX_VALUE_def
  INVALID_COURSE_VALUE_def holdRoute_def missedRoute_def holdProcedureLeg_def
  afterHoldProcedureLeg_def turnRoute_def

lemmas run_defs = updateActiveLegAndPos_def advanceActiveLeg_def isEmpty_def routeSize_def
  getPositionAt_def atIdx_def switchToNextLeg_def isHold_def isSmaller_def courseDifference_def
  isMissed_def lineDistanceMeterToLine_def

subsection \<open>Invalid input resets the active leg\<close>

text \<open>
  Claim C9. A call of \<open>updateActiveLegAndPos\<close> on an empty route, or with an invalid
  position sample, returns normally (no failed container access) with the state of
  \<open>resetActive\<close>: the active leg index is the invalid sentinel, the line distance
  result of the active leg has the invalid classification and the invalid distance in
  all three distance fields.
\<close>

theorem updateActiveLegAndPos_invalid_input:
  assumes "isEmpty r \<or> \<not> posCourseIsValid X pc"
  shows "updateActiveLegAndPos X r pc = Some (resetActive X r) \<and>
         activeLeg (resetActive X r) = INVALID_INDEX_VALUE \<and>
         status (activeLegResult (resetActive X r)) = INVALID \<and>
         distance (activeLegResult (resetActive X r)) = INVALID_DISTANCE_VALUE \<and>
         distanceFrom1 (activeLegResult (resetActive X r)) = INVALID_DISTANCE_VALUE \<and>
         distanceFrom2 (activeLegResult (resetActive X r)) = INVALID_DISTANCE_VALUE"
  using assms by (auto simp: updateActiveLegAndPos_def resetActive_def)

theorem updateActiveLegAndPos_invalid_input_witness:
  "isEmpty (testRoute []) \<and>
   map_option activeLeg
     (updateActiveLegAndPos flatExt (testRoute []) \<lparr>pos = (0, 0), course = 90\<rparr>)
     = Some INVALID_INDEX_VALUE \<and>
   \<not> posCourseIsValid flatExt \<lparr>pos = flatInvalidPos, course = 90\<rparr> \<and>
   map_option (\<lambda>r. status (activeLegResult r))
     (updateActiveLegAndPos flatExt (route4\<lparr>activeLeg := 2\<rparr>) \<lparr>pos = flatInvalidPos, course = 90\<rparr>)
     = Some INVALID"
proof -
  have e: "isEmpty (testRoute [])"
    by (simp add: isEmpty_def testRoute_def)
  have v: "\<not> posCourseIsValid flatExt \<lparr>pos = flatInvalidPos, course = 90\<rparr>"
    by (simp add: flatExt_def)
  from e have "isEmpty (testRoute []) \<or> \<not> posCourseIsValid flatExt \<lparr>pos = (0, 0), course = 90\<rparr>"
    by simp
  note a = updateActiveLegAndPos_invalid_input [OF this]
  from v have "isEmpty (route4\<lparr>activeLeg := 2\<rparr>) \<or>
      \<not> posCourseIsValid flatExt \<lparr>pos = flatInvalidPos, course = 90\<rparr>"
    by simp
  note b = updateActiveLegAndPos_invalid_input [OF this]
  from a b e v show ?thesis by simp
qed

subsection \<open>The corrected active leg index\<close>

text \<open>
  Claim C10. When the active leg index is valid (not the invalid sentinel),
  \<open>getActiveLegIndexCorrected\<close> returns the active leg index itself and writes
  \<open>false\<close> to the out-parameter \<open>corrected\<close> (when the pointer is not null): the
  correcting branch asks for \<open>nextLeg < size()\<close> and \<open>nextLeg == size()\<close> at once and is
  never taken.
\<close>

theorem getActiveLegIndexCorrected_never_corrects:
  assumes "activeLeg r \<noteq> INVALID_INDEX_VALUE"
  shows "getActiveLegIndexCorrected r corrected
           = Some (activeLeg r, map_option (\<lambda>_. False) corrected)"
  using assms by (auto simp: getActiveLegIndexCorrected_def Let_def)

theorem getActiveLegIndexCorrected_never_corrects_witness:
  "activeLeg (route4\<lparr>activeLeg := 3\<rparr>) \<noteq> INVALID_INDEX_VALUE \<and>
   getActiveLegIndexCorrected (route4\<lparr>activeLeg := 3\<rparr>) (Some True) = Some (3, Some False)"
proof -
  have h: "activeLeg (route4\<lparr>activeLeg := 3\<rparr>) \<noteq> INVALID_INDEX_VALUE"
    by (simp add: INVALID_INDEX_VALUE_def)
  from getActiveLegIndexCorrected_never_corrects [OF h, of "Some True"] h
  show ?thesis by simp
qed

subsection \<open>The structure of the update\<close>

lemma skipInitialFixes_ge:
  "skipInitialFixes ls n = Some m \<Longrightarrow> n \<le> m \<and> m < int (length ls) \<and> 0 \<le> m"
proof (induction ls n rule: skipInitialFixes.induct)
  case (1 ls n)
  show ?case
  proof (cases "atIdx ls n")
    case None
    with "1.prems" show ?thesis by (simp add: skipInitialFixes.simps[of ls n])
  next
    case (Some l)
    show ?thesis
    proof (cases "legType (procedureLeg l) = INITIAL_FIX \<and> n < int (length ls) - 2")
      case True
      with Some "1.prems" have "skipInitialFixes ls (n + 1) = Some m"
        by (simp add: skipInitialFixes.simps[of ls n])
      with "1.IH"[OF Some True] show ?thesis by simp
    next
      case False
      with Some "1.prems" have "m = n"
        by (auto simp: skipInitialFixes.simps[of ls n])
      with Some show ?thesis by (auto simp: atIdx_def split: if_splits)
    qed
  qed
qed

lemma skipInitialFixes_total:
  "0 \<le> n \<Longrightarrow> n < int (length ls) \<Longrightarrow> \<exists>m. skipInitialFixes ls n = Some m"
proof (induction ls n rule: skipInitialFixes.induct)
  case (1 ls n)
  from "1.prems" obtain l where l: "atIdx ls n = Some l" by (auto simp: atIdx_def)
  show ?case
  proof (cases "legType (procedureLeg l) = INITIAL_FIX \<and> n < int (length ls) - 2")
    case True
    with "1.IH"[OF l True] "1.prems" obtain m where "skipInitialFixes ls (n + 1) = Some m" by auto
    with l True show ?thesis by (simp add: skipInitialFixes.simps[of ls n])
  next
    case False
    with l show ?thesis by (auto simp: skipInitialFixes.simps[of ls n])
  qed
qed

text \<open>With an active leg inside a route of more than one leg, the update keeps the index
  and goes on to the advancement.\<close>

lemma update_tracked:
  assumes "posCourseIsValid X pc" "activeLeg r \<noteq> INVALID_INDEX_VALUE"
    "1 \<le> activeLeg r" "activeLeg r < routeSize r"
  shows "updateActiveLegAndPos X r pc = advanceActiveLeg X (trackedRoute X r pc) pc"
proof -
  from assms have ne: "\<not> isEmpty r" "routeSize r \<noteq> 1"
    by (auto simp: isEmpty_def routeSize_def)
  from assms have p: "getPositionAt r (activeLeg r - 1) = Some (position (legs r ! nat (activeLeg r - 1)))"
    "getPositionAt r (activeLeg r) = Some (position (legs r ! nat (activeLeg r)))"
    by (auto simp: getPositionAt_def atIdx_def routeSize_def)
  from assms ne p show ?thesis
    by (simp add: updateActiveLegAndPos_def Let_def trackedRoute_def)
qed

text \<open>The advancement either leaves the state as it is or moves the index to a later leg
  that the veto lets through.\<close>

lemma advance_cases:
  assumes "0 \<le> activeLeg r" "activeLeg r < routeSize r"
  shows "advanceActiveLeg X r pc = Some r \<or>
         (\<exists>n nxt. activeLeg r < n \<and> n < routeSize r \<and> atIdx (legs r) n = Some nxt \<and>
            \<not> (PROCEDURE_MISSED \<notin> shownTypes r \<and> isMissed nxt) \<and>
            advanceActiveLeg X r pc =
              Some (r\<lparr>activeLeg := n,
                      activeLegResult := distanceMeterToLine X (pos pc)
                         (position (legs r ! nat (n - 1))) (position (legs r ! nat n))\<rparr>))"
proof (cases "activeLeg r + 1 < routeSize r")
  case False
  then show ?thesis by (simp add: advanceActiveLeg_def)
next
  case True
  from assms obtain active where a: "atIdx (legs r) (activeLeg r) = Some active"
    by (auto simp: atIdx_def routeSize_def)
  from True assms have "\<exists>m. skipInitialFixes (legs r) (activeLeg r + 1) = Some m"
    by (intro skipInitialFixes_total) (auto simp: routeSize_def)
  then obtain n where
    n: "(if isHold active then skipInitialFixes (legs r) (activeLeg r + 1) else Some (activeLeg r + 1)) = Some n"
    by (cases "isHold active") auto
  with True assms have nb: "activeLeg r < n" "n < routeSize r"
    using skipInitialFixes_ge[of "legs r" "activeLeg r + 1" n]
    by (auto simp: routeSize_def split: if_splits)
  with assms have g: "getPositionAt r (n - 1) = Some (position (legs r ! nat (n - 1)))"
    "getPositionAt r n = Some (position (legs r ! nat n))"
    "atIdx (legs r) n = Some (legs r ! nat n)"
    by (auto simp: getPositionAt_def atIdx_def routeSize_def)
  show ?thesis
    using True a n nb g by (auto simp: advanceActiveLeg_def Let_def)
qed

text \<open>The advancement from a leg that is not a hold, and from a hold, with the legs it
  reads named.\<close>

lemma advance_plain:
  assumes "0 \<le> activeLeg r" "activeLeg r + 1 < routeSize r"
    "atIdx (legs r) (activeLeg r) = Some active" "atIdx (legs r) (activeLeg r + 1) = Some nxt"
    "\<not> isHold active"
  shows "advanceActiveLeg X r pc =
    (if switchToNextLeg X active nxt (pos (activePos r)) (activeLegResult r)
          (distanceMeterToLine X (pos (activePos r)) (position active) (position nxt))
          (courseDifference X pc (position active) (position nxt))
        \<and> \<not> (PROCEDURE_MISSED \<notin> shownTypes r \<and> isMissed nxt)
     then Some (r\<lparr>activeLeg := activeLeg r + 1,
                  activeLegResult := distanceMeterToLine X (pos pc) (position active) (position nxt)\<rparr>)
     else Some r)"
  using assms by (simp add: advanceActiveLeg_def getPositionAt_def)

lemma advance_hold:
  assumes "0 \<le> activeLeg r" "activeLeg r + 1 < routeSize r"
    "atIdx (legs r) (activeLeg r) = Some active" "isHold active"
    "skipInitialFixes (legs r) (activeLeg r + 1) = Some n"
    "atIdx (legs r) (n - 1) = Some before" "atIdx (legs r) n = Some nxt"
  shows "advanceActiveLeg X r pc =
    (if switchToNextLeg X active nxt (pos (activePos r)) (activeLegResult r)
          (distanceMeterToLine X (pos (activePos r)) (position before) (position nxt))
          (courseDifference X pc (position before) (position nxt))
        \<and> \<not> (PROCEDURE_MISSED \<notin> shownTypes r \<and> isMissed nxt)
     then Some (r\<lparr>activeLeg := n,
                  activeLegResult := distanceMeterToLine X (pos pc) (position before) (position nxt)\<rparr>)
     else Some r)"
  using assms by (simp add: advanceActiveLeg_def getPositionAt_def)

lemma update_step:
  assumes "posCourseIsValid X pc"
    and "1 \<le> activeLeg q" and "activeLeg q < routeSize q"
    and "routeSize q \<le> INVALID_INDEX_VALUE"
  shows "\<exists>r1. updateActiveLegAndPos X q pc = Some r1 \<and> legs r1 = legs q \<and>
      activeLeg q \<le> activeLeg r1 \<and> activeLeg r1 < routeSize q \<and>
      (activeLeg r1 = activeLeg q \<longrightarrow> r1 = trackedRoute X q pc)"
proof -
  let ?t = "trackedRoute X q pc"
  from assms have u: "updateActiveLegAndPos X q pc = advanceActiveLeg X ?t pc"
    by (intro update_tracked) auto
  have t: "activeLeg ?t = activeLeg q" "legs ?t = legs q" "routeSize ?t = routeSize q"
    by (simp_all add: trackedRoute_def routeSize_def)
  from assms t have "0 \<le> activeLeg ?t" "activeLeg ?t < routeSize ?t" by auto
  from advance_cases[OF this, of X pc]
  consider (stay) "advanceActiveLeg X ?t pc = Some ?t"
    | (move) n where "activeLeg ?t < n" "n < routeSize ?t"
        "advanceActiveLeg X ?t pc =
           Some (?t\<lparr>activeLeg := n,
                   activeLegResult := distanceMeterToLine X (pos pc)
                      (position (legs ?t ! nat (n - 1))) (position (legs ?t ! nat n))\<rparr>)"
    by blast
  then show ?thesis
  proof cases
    case stay
    show ?thesis
    proof (intro exI conjI impI)
      show "updateActiveLegAndPos X q pc = Some ?t" using u stay by simp
      show "legs ?t = legs q" by (rule t)
      show "activeLeg q \<le> activeLeg ?t" by (simp only: t)
      show "activeLeg ?t < routeSize q" using assms(3) by (simp only: t)
      show "?t = trackedRoute X q pc" by (rule refl)
    qed
  next
    case move
    define m where "m = ?t\<lparr>activeLeg := n,
                   activeLegResult := distanceMeterToLine X (pos pc)
                      (position (legs ?t ! nat (n - 1))) (position (legs ?t ! nat n))\<rparr>"
    have m: "legs m = legs q" "activeLeg m = n"
      by (simp_all add: m_def t)
    from move(1,2) have nb: "activeLeg q < n" "n < routeSize q" by (simp_all only: t)
    show ?thesis
    proof (intro exI conjI impI)
      show "updateActiveLegAndPos X q pc = Some m" using u move(3) by (simp only: m_def)
      show "legs m = legs q" by (rule m)
      show "activeLeg q \<le> activeLeg m" using nb by (simp only: m)
      show "activeLeg m < routeSize q" using nb by (simp only: m)
      show "m = trackedRoute X q pc" if "activeLeg m = activeLeg q"
        using that nb by (simp only: m)
    qed
  qed
qed

subsection \<open>Rules 5d and 5e: procedure turns and plain legs\<close>

text \<open>
  Claim C1, as amended. On a route where the active leg \<open>active\<close> (index at least 1) has
  a next leg \<open>nxt\<close>, and neither is a hold, the switch is indicated exactly when: for a
  procedure turn, the candidate's absolute cross-track distance is below the active
  leg's PLUS a margin of 100 m (the candidate may be up to the margin farther away) and
  the course difference is below 45 degrees; for any other leg, the active leg's
  classification is after-end, or the candidate's absolute cross-track distance is
  below the active leg's PLUS a margin of 10 m and the course difference is below 90
  degrees. The call returns normally, and the active index moves to the next leg
  exactly when the switch is indicated and the candidate is not a missed approach leg
  hidden by the display filter; otherwise the index stays.
\<close>

theorem plain_leg_switch:
  assumes "posCourseIsValid X pc"
    and "activeLeg r \<noteq> INVALID_INDEX_VALUE"
    and "1 \<le> activeLeg r" and "activeLeg r + 1 < routeSize r"
    and "atIdx (legs r) (activeLeg r - 1) = Some before"
    and "atIdx (legs r) (activeLeg r) = Some active"
    and "atIdx (legs r) (activeLeg r + 1) = Some nxt"
    and "\<not> isHold active" and "\<not> isHold nxt"
  shows "\<exists>r'. updateActiveLegAndPos X r pc = Some r' \<and>
           (activeLeg r' = activeLeg r + 1 \<or> activeLeg r' = activeLeg r) \<and>
           (activeLeg r' = activeLeg r + 1) =
             (switchToNextLeg X active nxt (pos pc)
                (distanceMeterToLine X (pos pc) (position before) (position active))
                (distanceMeterToLine X (pos pc) (position active) (position nxt))
                (courseDifference X pc (position active) (position nxt))
              \<and> \<not> (PROCEDURE_MISSED \<notin> shownTypes r \<and> isMissed nxt)) \<and>
           switchToNextLeg X active nxt (pos pc)
                (distanceMeterToLine X (pos pc) (position before) (position active))
                (distanceMeterToLine X (pos pc) (position active) (position nxt))
                (courseDifference X pc (position active) (position nxt)) =
             (if legType (procedureLeg active) = PROCEDURE_TURN then
                \<bar>distance (distanceMeterToLine X (pos pc) (position active) (position nxt))\<bar>
                  < \<bar>distance (distanceMeterToLine X (pos pc) (position before) (position active))\<bar> + 100
                \<and> courseDifference X pc (position active) (position nxt) < 45
              else
                status (distanceMeterToLine X (pos pc) (position before) (position active)) = AFTER_END \<or>
                (\<bar>distance (distanceMeterToLine X (pos pc) (position active) (position nxt))\<bar>
                   < \<bar>distance (distanceMeterToLine X (pos pc) (position before) (position active))\<bar> + 10
                 \<and> courseDifference X pc (position active) (position nxt) < 90))"
proof -
  let ?t = "trackedRoute X r pc"
  from assms have u: "updateActiveLegAndPos X r pc = advanceActiveLeg X ?t pc"
    by (intro update_tracked) auto
  from assms have b: "legs r ! nat (activeLeg r - 1) = before" "legs r ! nat (activeLeg r) = active"
    by (auto simp: atIdx_def split: if_splits)
  have t: "activeLeg ?t = activeLeg r" "legs ?t = legs r" "routeSize ?t = routeSize r"
    "shownTypes ?t = shownTypes r" "pos (activePos ?t) = pos pc"
    "activeLegResult ?t = distanceMeterToLine X (pos pc) (position before) (position active)"
    using b by (simp_all add: trackedRoute_def routeSize_def)
  from assms t have a: "advanceActiveLeg X ?t pc =
    (if switchToNextLeg X active nxt (pos (activePos ?t)) (activeLegResult ?t)
          (distanceMeterToLine X (pos (activePos ?t)) (position active) (position nxt))
          (courseDifference X pc (position active) (position nxt))
        \<and> \<not> (PROCEDURE_MISSED \<notin> shownTypes ?t \<and> isMissed nxt)
     then Some (?t\<lparr>activeLeg := activeLeg ?t + 1,
                  activeLegResult := distanceMeterToLine X (pos pc) (position active) (position nxt)\<rparr>)
     else Some ?t)"
    by (intro advance_plain) auto
  have s: "switchToNextLeg X active nxt (pos pc)
                (distanceMeterToLine X (pos pc) (position before) (position active))
                (distanceMeterToLine X (pos pc) (position active) (position nxt))
                (courseDifference X pc (position active) (position nxt)) =
             (if legType (procedureLeg active) = PROCEDURE_TURN then
                \<bar>distance (distanceMeterToLine X (pos pc) (position active) (position nxt))\<bar>
                  < \<bar>distance (distanceMeterToLine X (pos pc) (position before) (position active))\<bar> + 100
                \<and> courseDifference X pc (position active) (position nxt) < 45
              else
                status (distanceMeterToLine X (pos pc) (position before) (position active)) = AFTER_END \<or>
                (\<bar>distance (distanceMeterToLine X (pos pc) (position active) (position nxt))\<bar>
                   < \<bar>distance (distanceMeterToLine X (pos pc) (position before) (position active))\<bar> + 10
                 \<and> courseDifference X pc (position active) (position nxt) < 90))"
    using assms(8,9) by (simp add: switchToNextLeg_def isSmaller_def)
  show ?thesis
    unfolding u a t using s by (simp add: t)
qed

theorem plain_leg_switch_counterexample:
  "\<not> isHold (testLeg WAYPOINT None 1000 1) \<and> \<not> isHold (testLeg WAYPOINT None 2000 1) \<and>
   map_option activeLeg
     (updateActiveLegAndPos flatExt (route4\<lparr>activeLeg := 1\<rparr>) \<lparr>pos = (1000, 0), course = 90\<rparr>)
     = Some 2 \<and>
   \<not> claimedPlainSwitch (testLeg WAYPOINT None 1000 1)
        (flatDistance (1000, 0) (0, 0) (1000, 0)) (flatDistance (1000, 0) (1000, 0) (2000, 0))
        (courseDifference flatExt \<lparr>pos = (1000, 0), course = 90\<rparr> (1000, 0) (2000, 0)) \<and>
   map_option activeLeg
     (updateActiveLegAndPos flatExt turnRoute \<lparr>pos = (1000, 50), course = 90\<rparr>)
     = Some 2 \<and>
   \<not> claimedPlainSwitch (legs turnRoute ! 1)
        (flatDistance (1000, 50) (0, 0) (1000, 0)) (flatDistance (1000, 50) (1000, 0) (2000, 0))
        (courseDifference flatExt \<lparr>pos = (1000, 50), course = 90\<rparr> (1000, 0) (2000, 0))"
  by (simp add: run_defs fix_defs claimedPlainSwitch_def)

theorem plain_leg_switch_witness:
  "posCourseIsValid flatExt \<lparr>pos = (1000, 0), course = 90\<rparr> \<and>
   atIdx (legs (route4\<lparr>activeLeg := 1\<rparr>)) 1 = Some (testLeg WAYPOINT None 1000 1) \<and>
   \<not> isHold (testLeg WAYPOINT None 1000 1) \<and> \<not> isHold (testLeg WAYPOINT None 2000 1) \<and>
   (\<exists>r'. updateActiveLegAndPos flatExt (route4\<lparr>activeLeg := 1\<rparr>) \<lparr>pos = (1000, 0), course = 90\<rparr> = Some r'
         \<and> activeLeg r' = 2)"
proof -
  let ?r = "route4\<lparr>activeLeg := 1\<rparr>"
  let ?pc = "\<lparr>pos = (1000, 0), course = 90\<rparr> :: (real \<times> real) PosCourse"
  have h1: "posCourseIsValid flatExt ?pc" by (simp add: fix_defs)
  have h2: "activeLeg ?r \<noteq> INVALID_INDEX_VALUE" by (simp add: fix_defs)
  have h3: "1 \<le> activeLeg ?r" by simp
  have h4: "activeLeg ?r + 1 < routeSize ?r" by (simp add: routeSize_def fix_defs)
  have h5: "atIdx (legs ?r) (activeLeg ?r - 1) = Some (testLeg WAYPOINT None 0 0)"
    by (simp add: atIdx_def route4_def testRoute_def)
  have h6: "atIdx (legs ?r) (activeLeg ?r) = Some (testLeg WAYPOINT None 1000 1)"
    by (simp add: atIdx_def route4_def testRoute_def)
  have h7: "atIdx (legs ?r) (activeLeg ?r + 1) = Some (testLeg WAYPOINT None 2000 1)"
    by (simp add: atIdx_def route4_def testRoute_def)
  have h8: "\<not> isHold (testLeg WAYPOINT None 1000 1)" by (simp add: isHold_def fix_defs)
  have h9: "\<not> isHold (testLeg WAYPOINT None 2000 1)" by (simp add: isHold_def fix_defs)
  from plain_leg_switch [OF h1 h2 h3 h4 h5 h6 h7 h8 h9]
  obtain r' where r: "updateActiveLegAndPos flatExt ?r ?pc = Some r'"
    and m: "(activeLeg r' = activeLeg ?r + 1) =
             (switchToNextLeg flatExt (testLeg WAYPOINT None 1000 1) (testLeg WAYPOINT None 2000 1) (pos ?pc)
                (distanceMeterToLine flatExt (pos ?pc) (position (testLeg WAYPOINT None 0 0)) (position (testLeg WAYPOINT None 1000 1)))
                (distanceMeterToLine flatExt (pos ?pc) (position (testLeg WAYPOINT None 1000 1)) (position (testLeg WAYPOINT None 2000 1)))
                (courseDifference flatExt ?pc (position (testLeg WAYPOINT None 1000 1)) (position (testLeg WAYPOINT None 2000 1)))
              \<and> \<not> (PROCEDURE_MISSED \<notin> shownTypes ?r \<and> isMissed (testLeg WAYPOINT None 2000 1)))"
    by blast
  have "switchToNextLeg flatExt (testLeg WAYPOINT None 1000 1) (testLeg WAYPOINT None 2000 1) (pos ?pc)
                (distanceMeterToLine flatExt (pos ?pc) (position (testLeg WAYPOINT None 0 0)) (position (testLeg WAYPOINT None 1000 1)))
                (distanceMeterToLine flatExt (pos ?pc) (position (testLeg WAYPOINT None 1000 1)) (position (testLeg WAYPOINT None 2000 1)))
                (courseDifference flatExt ?pc (position (testLeg WAYPOINT None 1000 1)) (position (testLeg WAYPOINT None 2000 1)))
              \<and> \<not> (PROCEDURE_MISSED \<notin> shownTypes ?r \<and> isMissed (testLeg WAYPOINT None 2000 1))"
    by (simp add: run_defs fix_defs)
  with m have "activeLeg r' = 2" by simp
  with r h1 h6 h8 h9 show ?thesis by simp
qed

subsection \<open>Rule 5b: leaving a right-turn hold along its helper line\<close>

text \<open>
  Claim C2, as amended. When the active leg is a right-turn hold
  (\<open>turnDirection = "R"\<close>) and the start of the candidate leg's line differs from the
  hold's position, the call returns normally and the active index moves to the
  candidate leg (the leg found after skipping initial fixes) exactly when the
  position's classification against the hold's helper line is along-track, the signed
  distance to the helper line is below -0.5 nm (beyond the boundary on the negative
  side of the helper line), and the candidate is not a missed approach leg hidden by
  the display filter; otherwise the index stays.
\<close>

theorem hold_exit_switch:
  assumes "posCourseIsValid X pc"
    and "activeLeg r \<noteq> INVALID_INDEX_VALUE"
    and "1 \<le> activeLeg r" and "activeLeg r + 1 < routeSize r"
    and "atIdx (legs r) (activeLeg r) = Some active"
    and "isHold active"
    and "turnDirection (procedureLeg active) = ''R''"
    and "skipInitialFixes (legs r) (activeLeg r + 1) = Some n"
    and "atIdx (legs r) n = Some nxt"
    and "\<not> posEq X (pos1 (procLine (procedureLeg nxt))) (position active)"
  shows "\<exists>r'. updateActiveLegAndPos X r pc = Some r' \<and>
           activeLeg r < n \<and>
           (activeLeg r' = n \<or> activeLeg r' = activeLeg r) \<and>
           (activeLeg r' = n) =
             (status (lineDistanceMeterToLine X (holdLine (procedureLeg active)) (pos pc)) = ALONG_TRACK \<and>
              distance (lineDistanceMeterToLine X (holdLine (procedureLeg active)) (pos pc))
                < nmToMeter X (- 0.5) \<and>
              \<not> (PROCEDURE_MISSED \<notin> shownTypes r \<and> isMissed nxt))"
proof -
  let ?t = "trackedRoute X r pc"
  from assms have u: "updateActiveLegAndPos X r pc = advanceActiveLeg X ?t pc"
    by (intro update_tracked) auto
  have t: "activeLeg ?t = activeLeg r" "legs ?t = legs r" "routeSize ?t = routeSize r"
    "shownTypes ?t = shownTypes r" "pos (activePos ?t) = pos pc"
    by (simp_all add: trackedRoute_def routeSize_def)
  from assms(8) have n: "activeLeg r + 1 \<le> n" "n < int (length (legs r))"
    using skipInitialFixes_ge by blast+
  with assms(3) obtain before where bf: "atIdx (legs r) (n - 1) = Some before"
    by (auto simp: atIdx_def)
  from assms t bf have a: "advanceActiveLeg X ?t pc =
    (if switchToNextLeg X active nxt (pos (activePos ?t)) (activeLegResult ?t)
          (distanceMeterToLine X (pos (activePos ?t)) (position before) (position nxt))
          (courseDifference X pc (position before) (position nxt))
        \<and> \<not> (PROCEDURE_MISSED \<notin> shownTypes ?t \<and> isMissed nxt)
     then Some (?t\<lparr>activeLeg := n,
                  activeLegResult := distanceMeterToLine X (pos pc) (position before) (position nxt)\<rparr>)
     else Some ?t)"
    by (intro advance_hold) auto
  have s: "switchToNextLeg X active nxt (pos pc) ares nres cd =
     (status (lineDistanceMeterToLine X (holdLine (procedureLeg active)) (pos pc)) = ALONG_TRACK \<and>
      distance (lineDistanceMeterToLine X (holdLine (procedureLeg active)) (pos pc))
        < nmToMeter X (- 0.5))"
    for ares nres cd
    using assms(6,7,10) by (simp add: switchToNextLeg_def Let_def)
  show ?thesis
    unfolding u a using n by (auto simp: t s)
qed

theorem hold_exit_switch_counterexample:
  "isHold (legs (holdRoute ''R'') ! 1) \<and>
   turnDirection (procedureLeg (legs (holdRoute ''R'') ! 1)) = ''R'' \<and>
   \<not> posEq flatExt (pos1 (procLine (procedureLeg (legs (holdRoute ''R'') ! 2))))
        (position (legs (holdRoute ''R'') ! 1)) \<and>
   map_option activeLeg
     (updateActiveLegAndPos flatExt (holdRoute ''R'') \<lparr>pos = (2000, 0), course = 90\<rparr>) = Some 1 \<and>
   claimedHoldExit flatExt (legs (holdRoute ''R'') ! 1) (2000, 0) \<and>
   map_option activeLeg
     (updateActiveLegAndPos flatExt (holdRoute ''R'') \<lparr>pos = (2000, - 1000), course = 90\<rparr>) = Some 2 \<and>
   distance (lineDistanceMeterToLine flatExt (holdLine (procedureLeg (legs (holdRoute ''R'') ! 1)))
      (2000, - 1000)) < nmToMeter flatExt 0.5"
  by (simp add: run_defs fix_defs claimedHoldExit_def skipInitialFixes.simps)

theorem hold_exit_switch_witness:
  "isHold (legs (holdRoute ''R'') ! 1) \<and>
   turnDirection (procedureLeg (legs (holdRoute ''R'') ! 1)) = ''R'' \<and>
   skipInitialFixes (legs (holdRoute ''R'')) 2 = Some 2 \<and>
   \<not> posEq flatExt (pos1 (procLine (procedureLeg (legs (holdRoute ''R'') ! 2))))
        (position (legs (holdRoute ''R'') ! 1)) \<and>
   (\<exists>r'. updateActiveLegAndPos flatExt (holdRoute ''R'') \<lparr>pos = (2000, - 1000), course = 90\<rparr> = Some r'
         \<and> activeLeg r' = 2) \<and>
   (\<exists>r'. updateActiveLegAndPos flatExt (holdRoute ''R'') \<lparr>pos = (2000, 0), course = 90\<rparr> = Some r'
         \<and> activeLeg r' = 1)"
proof -
  let ?r = "holdRoute ''R''"
  let ?pc = "\<lparr>pos = (2000, - 1000), course = 90\<rparr> :: (real \<times> real) PosCourse"
  let ?pd = "\<lparr>pos = (2000, 0), course = 90\<rparr> :: (real \<times> real) PosCourse"
  have h1: "posCourseIsValid flatExt ?pc" "posCourseIsValid flatExt ?pd" by (simp_all add: fix_defs)
  have h2: "activeLeg ?r \<noteq> INVALID_INDEX_VALUE" by (simp add: fix_defs)
  have h3: "1 \<le> activeLeg ?r" by (simp add: holdRoute_def)
  have h4: "activeLeg ?r + 1 < routeSize ?r" by (simp add: routeSize_def holdRoute_def testRoute_def)
  have h5: "atIdx (legs ?r) (activeLeg ?r) = Some (legs ?r ! 1)"
    by (simp add: atIdx_def holdRoute_def testRoute_def)
  have h6: "isHold (legs ?r ! 1)" by (simp add: isHold_def fix_defs)
  have hR: "turnDirection (procedureLeg (legs ?r ! 1)) = ''R''" by (simp add: fix_defs)
  have h7: "skipInitialFixes (legs ?r) (activeLeg ?r + 1) = Some 2"
    by (simp add: skipInitialFixes.simps atIdx_def fix_defs)
  have h8: "atIdx (legs ?r) 2 = Some (legs ?r ! 2)"
    by (simp add: atIdx_def holdRoute_def testRoute_def)
  have h9: "\<not> posEq flatExt (pos1 (procLine (procedureLeg (legs ?r ! 2)))) (position (legs ?r ! 1))"
    by (simp add: fix_defs)
  have a1: "activeLeg ?r = 1" by (simp add: holdRoute_def)
  from hold_exit_switch [OF h1(1) h2 h3 h4 h5 h6 hR h7 h8 h9]
  obtain r' where r: "updateActiveLegAndPos flatExt ?r ?pc = Some r'"
    and m: "(activeLeg r' = 2) =
             (status (lineDistanceMeterToLine flatExt (holdLine (procedureLeg (legs ?r ! 1))) (pos ?pc)) = ALONG_TRACK \<and>
              distance (lineDistanceMeterToLine flatExt (holdLine (procedureLeg (legs ?r ! 1))) (pos ?pc))
                < nmToMeter flatExt (- 0.5) \<and>
              \<not> (PROCEDURE_MISSED \<notin> shownTypes ?r \<and> isMissed (legs ?r ! 2)))"
    by blast
  have "status (lineDistanceMeterToLine flatExt (holdLine (procedureLeg (legs ?r ! 1))) (pos ?pc)) = ALONG_TRACK \<and>
              distance (lineDistanceMeterToLine flatExt (holdLine (procedureLeg (legs ?r ! 1))) (pos ?pc))
                < nmToMeter flatExt (- 0.5) \<and>
              \<not> (PROCEDURE_MISSED \<notin> shownTypes ?r \<and> isMissed (legs ?r ! 2))"
    by (simp add: run_defs fix_defs)
  with m have e1: "activeLeg r' = 2" by simp
  from hold_exit_switch [OF h1(2) h2 h3 h4 h5 h6 hR h7 h8 h9]
  obtain q' where q: "updateActiveLegAndPos flatExt ?r ?pd = Some q'"
    and st: "activeLeg q' = 2 \<or> activeLeg q' = activeLeg ?r"
    and mq: "(activeLeg q' = 2) =
             (status (lineDistanceMeterToLine flatExt (holdLine (procedureLeg (legs ?r ! 1))) (pos ?pd)) = ALONG_TRACK \<and>
              distance (lineDistanceMeterToLine flatExt (holdLine (procedureLeg (legs ?r ! 1))) (pos ?pd))
                < nmToMeter flatExt (- 0.5) \<and>
              \<not> (PROCEDURE_MISSED \<notin> shownTypes ?r \<and> isMissed (legs ?r ! 2)))"
    by blast
  have "\<not> distance (lineDistanceMeterToLine flatExt (holdLine (procedureLeg (legs ?r ! 1))) (pos ?pd))
                < nmToMeter flatExt (- 0.5)"
    by (simp add: run_defs fix_defs)
  with mq have "activeLeg q' \<noteq> 2" by simp
  with st a1 have e2: "activeLeg q' = 1" by simp
  from h7 a1 have "skipInitialFixes (legs ?r) 2 = Some 2" by simp
  with r e1 q e2 h6 hR h9 show ?thesis by simp
qed

subsection \<open>The veto for hidden missed approach legs\<close>

text \<open>Every call on a non-empty route with a valid sample that returns has gone through
  the advancement, entered with the index \<open>enteredIndex\<close>.\<close>

lemma update_enters:
  assumes "\<not> isEmpty r" "posCourseIsValid X pc"
    and "updateActiveLegAndPos X r pc = Some r'"
  shows "\<exists>q. legs q = legs r \<and> shownTypes q = shownTypes r \<and>
           activeLeg q = enteredIndex X r pc \<and>
           0 \<le> activeLeg q \<and> activeLeg q < routeSize q \<and>
           advanceActiveLeg X q pc = Some r'"
proof (cases "routeSize r = 1")
  case True
  let ?q = "\<lambda>f. r\<lparr>activePos := pc, activeLeg := 0,
                  activeLegResult := distanceMeterToLine X (pos pc) f f\<rparr>"
  from assms(1,2) True have "updateActiveLegAndPos X r pc =
      getPositionAt r 0 \<bind> (\<lambda>f. advanceActiveLeg X (?q f) pc)"
    by (simp add: updateActiveLegAndPos_def Let_def)
  with assms(3) obtain f where a: "advanceActiveLeg X (?q f) pc = Some r'"
    by (auto split: bind_splits)
  have "legs (?q f) = legs r" "shownTypes (?q f) = shownTypes r"
    "activeLeg (?q f) = enteredIndex X r pc" "0 \<le> activeLeg (?q f)"
    "activeLeg (?q f) < routeSize (?q f)"
    using True by (simp_all add: routeSize_def enteredIndex_def Let_def)
  with a show ?thesis by blast
next
  case False
  define a where "a = enteredIndex X r pc"
  let ?q = "\<lambda>q1 q2. r\<lparr>activePos := pc, activeLeg := a,
                  activeLegResult := distanceMeterToLine X (pos pc) q1 q2\<rparr>"
  from assms(1,2) False have "updateActiveLegAndPos X r pc =
      getPositionAt r (a - 1) \<bind> (\<lambda>q1. getPositionAt r a \<bind> (\<lambda>q2.
        advanceActiveLeg X (?q q1 q2) pc))"
    by (simp add: updateActiveLegAndPos_def Let_def a_def enteredIndex_def)
  with assms(3) obtain q1 q2 where g: "getPositionAt r (a - 1) = Some q1"
    "getPositionAt r a = Some q2" "advanceActiveLeg X (?q q1 q2) pc = Some r'"
    by (auto split: bind_splits)
  from g(1,2) have "0 \<le> a" "a < routeSize r"
    by (auto simp: getPositionAt_def atIdx_def routeSize_def split: if_splits)
  then have "legs (?q q1 q2) = legs r" "shownTypes (?q q1 q2) = shownTypes r"
    "activeLeg (?q q1 q2) = enteredIndex X r pc" "0 \<le> activeLeg (?q q1 q2)"
    "activeLeg (?q q1 q2) < routeSize (?q q1 q2)"
    by (simp_all add: routeSize_def a_def)
  with g(3) show ?thesis by blast
qed

lemma enteredIndex_tracked:
  assumes "activeLeg r \<noteq> INVALID_INDEX_VALUE" "1 \<le> activeLeg r" "activeLeg r < routeSize r"
  shows "enteredIndex X r pc = activeLeg r"
  using assms by (simp add: enteredIndex_def Let_def)

text \<open>
  Claim C6. While the display filter hides missed approach legs
  (\<open>PROCEDURE_MISSED\<close> is not among the shown types), a call on a non-empty route with
  a valid sample leaves the legs as they are, and the advancement either keeps the index
  it was entered with or moves it to a leg that is not a missed approach leg: a switch
  that the decision table indicates onto a missed approach leg is vetoed. When the
  active index is already a leg of the route (at least 1), the advancement is entered
  with that index and the call returns normally.
\<close>

theorem missed_veto:
  assumes "PROCEDURE_MISSED \<notin> shownTypes r" and "\<not> isEmpty r" and "posCourseIsValid X pc"
  shows "(\<forall>r'. updateActiveLegAndPos X r pc = Some r' \<longrightarrow>
            legs r' = legs r \<and>
            (activeLeg r' = enteredIndex X r pc \<or>
             (\<exists>l. atIdx (legs r) (activeLeg r') = Some l \<and> \<not> isMissed l))) \<and>
         (activeLeg r \<noteq> INVALID_INDEX_VALUE \<and> 1 \<le> activeLeg r \<and> activeLeg r < routeSize r \<longrightarrow>
            enteredIndex X r pc = activeLeg r \<and> (\<exists>r'. updateActiveLegAndPos X r pc = Some r'))"
proof (intro conjI allI impI)
  fix r'
  assume u: "updateActiveLegAndPos X r pc = Some r'"
  from update_enters [OF assms(2,3) u] obtain q where q: "legs q = legs r"
    "shownTypes q = shownTypes r" "activeLeg q = enteredIndex X r pc"
    "0 \<le> activeLeg q" "activeLeg q < routeSize q" "advanceActiveLeg X q pc = Some r'"
    by blast
  from advance_cases [OF q(4,5), of X pc]
  consider (stay) "advanceActiveLeg X q pc = Some q"
    | (move) n nxt where "atIdx (legs q) n = Some nxt"
        "\<not> (PROCEDURE_MISSED \<notin> shownTypes q \<and> isMissed nxt)"
        "advanceActiveLeg X q pc =
           Some (q\<lparr>activeLeg := n,
                   activeLegResult := distanceMeterToLine X (pos pc)
                      (position (legs q ! nat (n - 1))) (position (legs q ! nat n))\<rparr>)"
    by blast
  then have "legs r' = legs r \<and>
            (activeLeg r' = enteredIndex X r pc \<or>
             (\<exists>l. atIdx (legs r) (activeLeg r') = Some l \<and> \<not> isMissed l))"
  proof cases
    case stay
    with q(6) have "r' = q" by simp
    with q(1,3) show ?thesis by simp
  next
    case move
    from move(3) q(6) have l: "legs r' = legs q" and a: "activeLeg r' = n" by auto
    from move(2) assms(1) q(2) have "\<not> isMissed nxt" by simp
    with move(1) l a q(1) show ?thesis by auto
  qed
  then show "legs r' = legs r"
    and "activeLeg r' = enteredIndex X r pc \<or>
             (\<exists>l. atIdx (legs r) (activeLeg r') = Some l \<and> \<not> isMissed l)"
    by simp_all
next
  assume t: "activeLeg r \<noteq> INVALID_INDEX_VALUE \<and> 1 \<le> activeLeg r \<and> activeLeg r < routeSize r"
  then show "enteredIndex X r pc = activeLeg r" by (simp add: enteredIndex_tracked)
  from t assms(3) have "updateActiveLegAndPos X r pc = advanceActiveLeg X (trackedRoute X r pc) pc"
    by (intro update_tracked) auto
  moreover have "activeLeg (trackedRoute X r pc) = activeLeg r"
    "routeSize (trackedRoute X r pc) = routeSize r"
    by (simp_all add: trackedRoute_def routeSize_def)
  with t have "0 \<le> activeLeg (trackedRoute X r pc)"
    "activeLeg (trackedRoute X r pc) < routeSize (trackedRoute X r pc)" by simp_all
  from advance_cases [OF this, of X pc]
  have "\<exists>r'. advanceActiveLeg X (trackedRoute X r pc) pc = Some r'" by blast
  ultimately show "\<exists>r'. updateActiveLegAndPos X r pc = Some r'" by simp
qed

theorem missed_veto_witness:
  "PROCEDURE_MISSED \<notin> shownTypes missedRoute \<and> \<not> isEmpty missedRoute \<and>
   isMissed (legs missedRoute ! 2) \<and>
   status (flatDistance (2500, 0) (0, 0) (1000, 0)) = AFTER_END \<and>
   enteredIndex flatExt missedRoute \<lparr>pos = (2500, 0), course = 90\<rparr> = 1 \<and>
   map_option activeLeg
     (updateActiveLegAndPos flatExt missedRoute \<lparr>pos = (2500, 0), course = 90\<rparr>) = Some 1"
proof -
  let ?pc = "\<lparr>pos = (2500, 0), course = 90\<rparr> :: (real \<times> real) PosCourse"
  have h1: "PROCEDURE_MISSED \<notin> shownTypes missedRoute" by (simp add: missedRoute_def testRoute_def)
  have h2: "\<not> isEmpty missedRoute" by (simp add: isEmpty_def missedRoute_def testRoute_def)
  have h3: "posCourseIsValid flatExt ?pc" by (simp add: fix_defs)
  have t: "activeLeg missedRoute \<noteq> INVALID_INDEX_VALUE \<and> 1 \<le> activeLeg missedRoute \<and>
      activeLeg missedRoute < routeSize missedRoute"
    by (simp add: routeSize_def missedRoute_def testRoute_def INVALID_INDEX_VALUE_def)
  from missed_veto [OF h1 h2 h3] t
  obtain r' where e: "enteredIndex flatExt missedRoute ?pc = activeLeg missedRoute"
    and r: "updateActiveLegAndPos flatExt missedRoute ?pc = Some r'"
    and m: "activeLeg r' = enteredIndex flatExt missedRoute ?pc \<or>
            (\<exists>l. atIdx (legs missedRoute) (activeLeg r') = Some l \<and> \<not> isMissed l)"
    by blast
  have a: "activeLeg missedRoute = 1" by (simp add: missedRoute_def)
  have v: "map_option activeLeg (updateActiveLegAndPos flatExt missedRoute ?pc) = Some 1"
    by (simp add: run_defs fix_defs)
  have "isMissed (legs missedRoute ! 2)" by (simp add: isMissed_def fix_defs)
  moreover have "status (flatDistance (2500, 0) (0, 0) (1000, 0)) = AFTER_END"
    by (simp add: flatDistance_def)
  ultimately show ?thesis using h1 h2 e a v m r by simp
qed

subsection \<open>Repeating a sample\<close>

text \<open>
  Claim C8, as amended. On a route whose active index is a leg of the route (at
  least 1), two calls in a row with the same position and course both return normally
  and never move the active index backwards, so the index cannot oscillate between two
  legs; and when the first call leaves the index unchanged, the second call leaves the
  whole state unchanged. The index after the second call can be later than after the
  first: each call advances by at most one switch.
\<close>

theorem repeated_sample:
  assumes "posCourseIsValid X pc"
    and "1 \<le> activeLeg r" and "activeLeg r < routeSize r"
    and "routeSize r \<le> INVALID_INDEX_VALUE"
  shows "\<exists>r1 r2. updateActiveLegAndPos X r pc = Some r1 \<and>
           updateActiveLegAndPos X r1 pc = Some r2 \<and>
           activeLeg r \<le> activeLeg r1 \<and> activeLeg r1 \<le> activeLeg r2 \<and>
           activeLeg r2 < routeSize r \<and>
           (if activeLeg r1 = activeLeg r then r2 = r1 else activeLeg r < activeLeg r1)"
proof -
  from update_step[OF assms] obtain r1 where r1: "updateActiveLegAndPos X r pc = Some r1"
    "legs r1 = legs r" "activeLeg r \<le> activeLeg r1" "activeLeg r1 < routeSize r"
    "activeLeg r1 = activeLeg r \<longrightarrow> r1 = trackedRoute X r pc" by blast
  from r1(2) have sz: "routeSize r1 = routeSize r" by (simp add: routeSize_def)
  from r1 assms sz have q1: "1 \<le> activeLeg r1" "activeLeg r1 < routeSize r1"
    "routeSize r1 \<le> INVALID_INDEX_VALUE"
    by simp_all
  from update_step[OF assms(1) q1] obtain r2 where r2: "updateActiveLegAndPos X r1 pc = Some r2"
    "legs r2 = legs r1" "activeLeg r1 \<le> activeLeg r2" "activeLeg r2 < routeSize r1"
    by blast
  have stable: "r2 = r1" if e: "activeLeg r1 = activeLeg r"
  proof -
    from e r1(5) have eq: "r1 = trackedRoute X r pc" by simp
    have idem: "trackedRoute X (trackedRoute X r pc) pc = trackedRoute X r pc"
      by (simp add: trackedRoute_def)
    from q1 assms(1) have "updateActiveLegAndPos X r1 pc = advanceActiveLeg X (trackedRoute X r1 pc) pc"
      by (intro update_tracked) auto
    also have "trackedRoute X r1 pc = trackedRoute X r pc"
      using eq idem by simp
    also from assms have "advanceActiveLeg X (trackedRoute X r pc) pc = updateActiveLegAndPos X r pc"
      by (intro update_tracked[symmetric]) auto
    finally have "updateActiveLegAndPos X r1 pc = updateActiveLegAndPos X r pc" .
    with r1(1) r2(1) show ?thesis by simp
  qed
  show ?thesis
  proof (intro exI conjI)
    show "updateActiveLegAndPos X r pc = Some r1" by (rule r1(1))
    show "updateActiveLegAndPos X r1 pc = Some r2" by (rule r2(1))
    show "activeLeg r \<le> activeLeg r1" by (rule r1(3))
    show "activeLeg r1 \<le> activeLeg r2" by (rule r2(3))
    show "activeLeg r2 < routeSize r" using r2(4) sz by simp
    show "if activeLeg r1 = activeLeg r then r2 = r1 else activeLeg r < activeLeg r1"
      using stable r1(3) by (cases "activeLeg r1 = activeLeg r") simp_all
  qed
qed

theorem repeated_sample_counterexample:
  "map_option activeLeg
     (updateActiveLegAndPos flatExt (route4\<lparr>activeLeg := 1\<rparr>) \<lparr>pos = (2500, 0), course = 90\<rparr>)
     = Some 2 \<and>
   map_option activeLeg
     (Option.bind
        (updateActiveLegAndPos flatExt (route4\<lparr>activeLeg := 1\<rparr>) \<lparr>pos = (2500, 0), course = 90\<rparr>)
        (\<lambda>r1. updateActiveLegAndPos flatExt r1 \<lparr>pos = (2500, 0), course = 90\<rparr>))
     = Some 3"
  by (simp add: run_defs fix_defs)

theorem repeated_sample_witness:
  "posCourseIsValid flatExt \<lparr>pos = (1500, 0), course = 90\<rparr> \<and>
   routeSize (route4\<lparr>activeLeg := 2\<rparr>) \<le> INVALID_INDEX_VALUE \<and>
   (\<exists>r1 r2.
      updateActiveLegAndPos flatExt (route4\<lparr>activeLeg := 2\<rparr>) \<lparr>pos = (1500, 0), course = 90\<rparr> = Some r1 \<and>
      updateActiveLegAndPos flatExt r1 \<lparr>pos = (1500, 0), course = 90\<rparr> = Some r2 \<and>
      activeLeg r1 = 2 \<and> r2 = r1)"
proof -
  let ?r = "route4\<lparr>activeLeg := 2\<rparr>"
  let ?pc = "\<lparr>pos = (1500, 0), course = 90\<rparr> :: (real \<times> real) PosCourse"
  have h1: "posCourseIsValid flatExt ?pc" by (simp add: fix_defs)
  have h2: "1 \<le> activeLeg ?r" by simp
  have h3: "activeLeg ?r < routeSize ?r" by (simp add: routeSize_def route4_def testRoute_def)
  have h4: "routeSize ?r \<le> INVALID_INDEX_VALUE"
    by (simp add: routeSize_def route4_def testRoute_def INVALID_INDEX_VALUE_def)
  from repeated_sample [OF h1 h2 h3 h4]
  obtain r1 r2 where r: "updateActiveLegAndPos flatExt ?r ?pc = Some r1"
    "updateActiveLegAndPos flatExt r1 ?pc = Some r2"
    and s: "if activeLeg r1 = activeLeg ?r then r2 = r1 else activeLeg ?r < activeLeg r1"
    by blast
  have "map_option activeLeg (updateActiveLegAndPos flatExt ?r ?pc) = Some 2"
    by (simp add: run_defs fix_defs)
  with r(1) have a: "activeLeg r1 = 2" by simp
  with s have "r2 = r1" by simp
  with r a h1 h4 show ?thesis by blast
qed

subsection \<open>The total distance\<close>

lemma isAirportAfterArrival_in_range:
  "i < length (legs r) \<Longrightarrow> \<exists>b. isAirportAfterArrival r (int i) = Some b"
  by (auto simp: isAirportAfterArrival_def atIdx_def)

lemma isAirportAfterArrival_True:
  "isAirportAfterArrival r i = Some True \<Longrightarrow> i = routeSize r - 1"
  by (simp add: isAirportAfterArrival_def split: if_splits)

lemma updateDistanceAndCourse_identity:
  "mapObjectType (updateDistanceAndCourse X i lastLeg l) = mapObjectType l"
  "procTag (updateDistanceAndCourse X i lastLeg l) = procTag l"
  "position (updateDistanceAndCourse X i lastLeg l) = position l"
  "procedureLeg (updateDistanceAndCourse X i lastLeg l) = procedureLeg l"
  by (simp_all add: updateDistanceAndCourse_def split: prod.splits)

lemma updateDistanceStep_fields:
  "legs (updateDistanceStep X r i lastLeg)
     = (legs r)[i := updateDistanceAndCourse X (int i) lastLeg (legs r ! i)]"
  "totalDistance (updateDistanceStep X r i lastLeg)
     = (if \<not> isMissed (updateDistanceAndCourse X (int i) lastLeg (legs r ! i))
        then totalDistance r + distanceTo (updateDistanceAndCourse X (int i) lastLeg (legs r ! i))
        else totalDistance r)"
  "arrivalLegs (updateDistanceStep X r i lastLeg) = arrivalLegs r"
  "starLegs (updateDistanceStep X r i lastLeg) = starLegs r"
  by (simp_all add: updateDistanceStep_def Let_def)

lemma updateDistanceStep_size:
  "length (legs (updateDistanceStep X r i lastLeg)) = length (legs r)"
  "routeSize (updateDistanceStep X r i lastLeg) = routeSize r"
  "hasArrivalProcedure (updateDistanceStep X r i lastLeg) = hasArrivalProcedure r"
  "hasStarProcedure (updateDistanceStep X r i lastLeg) = hasStarProcedure r"
  by (simp_all add: updateDistanceStep_fields routeSize_def hasArrivalProcedure_def hasStarProcedure_def)


lemma nonMissedSum_snoc:
  "nonMissedSum (ls @ [l]) = (if \<not> isMissed l then nonMissedSum ls + distanceTo l else nonMissedSum ls)"
  by (simp add: nonMissedSum_def)

lemma updateDistanceStep_sum:
  assumes "i < length (legs r)" "totalDistance r = nonMissedSum (take i (legs r))"
  shows "totalDistance (updateDistanceStep X r i lastLeg)
           = nonMissedSum (take (Suc i) (legs (updateDistanceStep X r i lastLeg)))"
proof -
  let ?u = "updateDistanceAndCourse X (int i) lastLeg (legs r ! i)"
  have "take (Suc i) (legs (updateDistanceStep X r i lastLeg)) = take i (legs r) @ [?u]"
    using assms(1) by (simp add: updateDistanceStep_fields take_Suc_conv_app_nth)
  then show ?thesis
    using assms(2) by (simp add: nonMissedSum_snoc updateDistanceStep_fields)
qed

lemma updateDistanceStep_airport:
  assumes "Suc i = length (legs r)"
  shows "isAirportAfterArrival (updateDistanceStep X r i lastLeg) (int i)
           = isAirportAfterArrival r (int i)"
proof -
  from assms have i: "i < length (legs r)" by simp
  then have "atIdx (legs (updateDistanceStep X r i lastLeg)) (int i)
      = Some (updateDistanceAndCourse X (int i) lastLeg (legs r ! i))"
    "atIdx (legs r) (int i) = Some (legs r ! i)"
    by (simp_all add: atIdx_def updateDistanceStep_fields)
  moreover from assms have "routeSize r - 1 = int i" by (simp add: routeSize_def)
  ultimately show ?thesis
    by (simp add: isAirportAfterArrival_def updateDistanceStep_size updateDistanceAndCourse_identity)
qed

lemma specTotalDistance_all:
  assumes "isAirportAfterArrival r (routeSize r - 1) \<noteq> Some True"
  shows "specTotalDistance r = nonMissedSum (legs r)"
  using assms by (simp add: specTotalDistance_def legsBeforeAirportAfterArrival_def nonMissedSum_def)

lemma specTotalDistance_butlast:
  assumes "isAirportAfterArrival r (int i) = Some True"
  shows "specTotalDistance r = nonMissedSum (take i (legs r))"
proof -
  from assms have "int i = routeSize r - 1" by (rule isAirportAfterArrival_True)
  then have i: "i = length (legs r) - 1" and ri: "routeSize r - 1 = int i"
    by (simp_all add: routeSize_def)
  from i have "take i (legs r) = butlast (legs r)" by (simp add: butlast_conv_take)
  with assms ri show ?thesis
    by (simp add: specTotalDistance_def legsBeforeAirportAfterArrival_def nonMissedSum_def)
qed

lemma updateDistancesLoop_total:
  assumes "i \<le> length (legs r)"
    and "totalDistance r = nonMissedSum (take i (legs r))"
    and "i = length (legs r) \<longrightarrow> isAirportAfterArrival r (routeSize r - 1) \<noteq> Some True"
  shows "\<exists>r'. updateDistancesLoop X r i lastLeg = Some r' \<and> totalDistance r' = specTotalDistance r'"
  using assms
proof (induction X r i lastLeg rule: updateDistancesLoop.induct)
  case (1 X r i lastLeg)
  show ?case
  proof (cases "i < length (legs r)")
    case False
    with "1.prems" have e: "i = length (legs r)" by simp
    with "1.prems" have "specTotalDistance r = totalDistance r"
      by (simp add: specTotalDistance_all)
    moreover from False have "updateDistancesLoop X r i lastLeg = Some r"
      by (simp add: updateDistancesLoop.simps[of X r i])
    ultimately show ?thesis by simp
  next
    case True
    then obtain b where b: "isAirportAfterArrival r (int i) = Some b"
      using isAirportAfterArrival_in_range by blast
    show ?thesis
    proof (cases b)
      case True
      with b "1.prems"(2) have "specTotalDistance r = totalDistance r"
        by (simp add: specTotalDistance_butlast)
      moreover from b True \<open>i < length (legs r)\<close> have "updateDistancesLoop X r i lastLeg = Some r"
        by (simp add: updateDistancesLoop.simps[of X r i])
      ultimately show ?thesis by simp
    next
      case False
      let ?r = "updateDistanceStep X r i lastLeg"
      have p1: "Suc i \<le> length (legs ?r)"
        using \<open>i < length (legs r)\<close> by (simp add: updateDistanceStep_size)
      have p2: "totalDistance ?r = nonMissedSum (take (Suc i) (legs ?r))"
        using \<open>i < length (legs r)\<close> "1.prems"(2) by (rule updateDistanceStep_sum)
      have p3: "Suc i = length (legs ?r) \<longrightarrow> isAirportAfterArrival ?r (routeSize ?r - 1) \<noteq> Some True"
      proof
        assume "Suc i = length (legs ?r)"
        then have l: "Suc i = length (legs r)" by (simp add: updateDistanceStep_size)
        then have ri: "routeSize ?r - 1 = int i"
          by (simp add: updateDistanceStep_size routeSize_def)
        from updateDistanceStep_airport[OF l] b False
        show "isAirportAfterArrival ?r (routeSize ?r - 1) \<noteq> Some True"
          by (simp add: ri)
      qed
      from b False have bf: "isAirportAfterArrival r (int i) = Some False" by simp
      from "1.IH"[OF \<open>i < length (legs r)\<close> bf _ p1 p2 p3]
      have "\<exists>r'. updateDistancesLoop X ?r (Suc i) (Some (legs ?r ! i)) = Some r' \<and>
                 totalDistance r' = specTotalDistance r'"
        by simp
      moreover from bf \<open>i < length (legs r)\<close>
      have "updateDistancesLoop X r i lastLeg = updateDistancesLoop X ?r (Suc i) (Some (legs ?r ! i))"
        by (simp add: updateDistancesLoop.simps[of X r i])
      ultimately show ?thesis by simp
    qed
  qed
qed

lemma updateDistancesAndCourse_sum:
  "\<exists>r'. updateDistancesAndCourse X r = Some r' \<and> totalDistance r' = specTotalDistance r'"
proof -
  let ?r = "r\<lparr>totalDistance := 0\<rparr>"
  have "0 = length (legs ?r) \<longrightarrow> isAirportAfterArrival ?r (routeSize ?r - 1) \<noteq> Some True"
    by (simp add: isAirportAfterArrival_def routeSize_def atIdx_def)
  moreover have "totalDistance ?r = nonMissedSum (take 0 (legs ?r))"
    by (simp add: nonMissedSum_def)
  ultimately have "\<exists>r'. updateDistancesLoop X ?r 0 None = Some r' \<and> totalDistance r' = specTotalDistance r'"
    by (intro updateDistancesLoop_total) simp_all
  then show ?thesis by (simp add: updateDistancesAndCourse_def)
qed

text \<open>The update passes keep the flight plan, the offsets, the procedures and the identity
  of every leg.\<close>

lemma map_legIdentity_update:
  assumes "legIdentity x = legIdentity (ls ! i)"
  shows "map legIdentity (ls[i := x]) = map legIdentity ls"
proof (cases "i < length ls")
  case True
  with assms show ?thesis by (simp add: list_eq_iff_nth_eq nth_list_update)
next
  case False
  then show ?thesis by (simp add: list_update_beyond)
qed

lemma updateIndices_frame:
  "procedureFrame (updateIndices r) = procedureFrame r"
  "map legIdentity (legs (updateIndices r)) = map legIdentity (legs r)"
  by (simp_all add: updateIndices_def procedureFrame_def list_eq_iff_nth_eq nth_enumerate_eq
      legIdentity_def)

lemma updateInvalidMagvar_identity:
  "map legIdentity (foldl (updateInvalidMagvarStep X) ls js) = map legIdentity ls"
proof (induction js arbitrary: ls)
  case Nil
  show ?case by simp
next
  case (Cons j js)
  have "map legIdentity (updateInvalidMagvarStep X ls j) = map legIdentity ls"
    unfolding updateInvalidMagvarStep_def
    by (rule map_legIdentity_update) (simp add: legIdentity_def)
  with Cons.IH [of "updateInvalidMagvarStep X ls j"] show ?case by simp
qed

lemma updateMagvar_frame:
  "procedureFrame (updateMagvar X r) = procedureFrame r"
  "map legIdentity (legs (updateMagvar X r)) = map legIdentity (legs r)"
proof -
  show "procedureFrame (updateMagvar X r) = procedureFrame r"
    by (simp add: updateMagvar_def Let_def procedureFrame_def)
  have "map legIdentity (map (\<lambda>l. l\<lparr>magvar := legMagvar X l\<rparr>) (legs r)) = map legIdentity (legs r)"
    by (simp add: legIdentity_def)
  then show "map legIdentity (legs (updateMagvar X r)) = map legIdentity (legs r)"
    by (simp add: updateMagvar_def Let_def updateInvalidMagvar_identity)
qed

lemma updateDistanceStep_frame:
  "procedureFrame (updateDistanceStep X r i lastLeg) = procedureFrame r"
  "map legIdentity (legs (updateDistanceStep X r i lastLeg)) = map legIdentity (legs r)"
proof -
  show "procedureFrame (updateDistanceStep X r i lastLeg) = procedureFrame r"
    by (simp add: updateDistanceStep_def Let_def procedureFrame_def)
  show "map legIdentity (legs (updateDistanceStep X r i lastLeg)) = map legIdentity (legs r)"
    unfolding updateDistanceStep_fields
    by (rule map_legIdentity_update) (simp add: legIdentity_def updateDistanceAndCourse_identity)
qed

lemma updateDistancesLoop_frame:
  "updateDistancesLoop X r i lastLeg = Some r' \<Longrightarrow>
     procedureFrame r' = procedureFrame r \<and> map legIdentity (legs r') = map legIdentity (legs r)"
proof (induction X r i lastLeg rule: updateDistancesLoop.induct)
  case (1 X r i lastLeg)
  show ?case
  proof (cases "i < length (legs r)")
    case False
    with "1.prems" have "r' = r" by (simp add: updateDistancesLoop.simps[of X r i])
    then show ?thesis by simp
  next
    case True
    then obtain b where b: "isAirportAfterArrival r (int i) = Some b"
      using isAirportAfterArrival_in_range by blast
    show ?thesis
    proof (cases b)
      case True
      with b \<open>i < length (legs r)\<close> "1.prems" have "r' = r"
        by (simp add: updateDistancesLoop.simps[of X r i])
      then show ?thesis by simp
    next
      case False
      let ?r = "updateDistanceStep X r i lastLeg"
      from b False have bf: "isAirportAfterArrival r (int i) = Some False" by simp
      with \<open>i < length (legs r)\<close> "1.prems"
      have "updateDistancesLoop X ?r (Suc i) (Some (legs ?r ! i)) = Some r'"
        by (simp add: updateDistancesLoop.simps[of X r i])
      from "1.IH"[OF \<open>i < length (legs r)\<close> bf _ this]
      show ?thesis by (simp add: updateDistanceStep_frame)
    qed
  qed
qed

lemma updateAll_frame:
  "\<exists>r'. updateAll X r = Some r' \<and> procedureFrame r' = procedureFrame r \<and>
        map legIdentity (legs r') = map legIdentity (legs r)"
proof -
  let ?q = "updateMagvar X (updateIndices r)"
  obtain d where d: "updateDistancesAndCourse X ?q = Some d"
    using updateDistancesAndCourse_sum by blast
  then have "updateDistancesLoop X (?q\<lparr>totalDistance := 0\<rparr>) 0 None = Some d"
    by (simp add: updateDistancesAndCourse_def)
  from updateDistancesLoop_frame [OF this]
  have f: "procedureFrame d = procedureFrame r" "map legIdentity (legs d) = map legIdentity (legs r)"
    by (simp_all add: procedureFrame_def updateMagvar_frame [unfolded procedureFrame_def]
        updateIndices_frame [unfolded procedureFrame_def] updateMagvar_frame(2) updateIndices_frame(2))
  have "updateAll X r = Some (updateBoundingRect X d)"
    by (simp add: updateAll_def d)
  moreover have "procedureFrame (updateBoundingRect X d) = procedureFrame d"
    "legs (updateBoundingRect X d) = legs d"
    by (simp_all add: updateBoundingRect_def procedureFrame_def)
  ultimately show ?thesis using f by simp
qed

text \<open>The legs after the pass, one by one.\<close>

lemma isAirportAfterArrival_frame:
  assumes "procedureFrame r' = procedureFrame r"
    and "map legIdentity (legs r') = map legIdentity (legs r)"
  shows "isAirportAfterArrival r' x = isAirportAfterArrival r x"
proof -
  from assms(2) have len: "length (legs r') = length (legs r)"
    by (rule map_eq_imp_length_eq)
  from assms(1) have f: "hasArrivalProcedure r' = hasArrivalProcedure r"
    "hasStarProcedure r' = hasStarProcedure r"
    by (simp_all add: procedureFrame_def hasArrivalProcedure_def hasStarProcedure_def)
  have "map_option (\<lambda>l. mapObjectType l = AIRPORT) (atIdx (legs r') x)
      = map_option (\<lambda>l. mapObjectType l = AIRPORT) (atIdx (legs r) x)"
  proof (cases "0 \<le> x \<and> x < int (length (legs r))")
    case False
    with len show ?thesis by (auto simp: atIdx_def)
  next
    case True
    then have "nat x < length (legs r)" by auto
    with len have "legIdentity (legs r' ! nat x) = legIdentity (legs r ! nat x)"
      using assms(2) by (metis nth_map)
    then have "mapObjectType (legs r' ! nat x) = mapObjectType (legs r ! nat x)"
      by (simp add: legIdentity_def)
    with True len show ?thesis by (simp add: atIdx_def)
  qed
  with f len show ?thesis by (auto simp: isAirportAfterArrival_def routeSize_def)
qed

lemma legsBefore_length_frame:
  assumes "procedureFrame r' = procedureFrame r"
    and "map legIdentity (legs r') = map legIdentity (legs r)"
  shows "length (legsBeforeAirportAfterArrival r') = length (legsBeforeAirportAfterArrival r)"
proof -
  from assms(2) have len: "length (legs r') = length (legs r)"
    by (rule map_eq_imp_length_eq)
  then have "routeSize r' = routeSize r" by (simp add: routeSize_def)
  with isAirportAfterArrival_frame [OF assms] len show ?thesis
    by (simp add: legsBeforeAirportAfterArrival_def)
qed

lemma legsBefore_length_bounds:
  "length (legsBeforeAirportAfterArrival r) \<le> length (legs r)"
  "isAirportAfterArrival r (int i) = Some False \<Longrightarrow> i < length (legs r)
     \<Longrightarrow> i < length (legsBeforeAirportAfterArrival r)"
  "isAirportAfterArrival r (int i) = Some True \<Longrightarrow> length (legsBeforeAirportAfterArrival r) = i"
proof -
  show "length (legsBeforeAirportAfterArrival r) \<le> length (legs r)"
    by (simp add: legsBeforeAirportAfterArrival_def)
  show "i < length (legsBeforeAirportAfterArrival r)"
    if "isAirportAfterArrival r (int i) = Some False" "i < length (legs r)"
  proof (cases "int i = routeSize r - 1")
    case True
    with that show ?thesis by (simp add: legsBeforeAirportAfterArrival_def)
  next
    case False
    with that(2) have "i < length (legs r) - 1" by (simp add: routeSize_def)
    then show ?thesis by (auto simp: legsBeforeAirportAfterArrival_def)
  qed
  show "length (legsBeforeAirportAfterArrival r) = i"
    if t: "isAirportAfterArrival r (int i) = Some True"
  proof -
    from t have "int i = routeSize r - 1" by (rule isAirportAfterArrival_True)
    then have "routeSize r - 1 = int i" "i = length (legs r) - 1" by (simp_all add: routeSize_def)
    with t show ?thesis by (simp add: legsBeforeAirportAfterArrival_def)
  qed
qed

lemma updateDistancesLoop_legs:
  assumes "updateDistancesLoop X r i lastLeg = Some r'" and "i \<le> length (legs r)"
  shows "length (legs r') = length (legs r) \<and>
         (\<forall>j<i. legs r' ! j = legs r ! j) \<and>
         (\<forall>j. i \<le> j \<and> j < length (legsBeforeAirportAfterArrival r) \<longrightarrow>
              legs r' ! j = updateDistanceAndCourse X (int j)
                              (if j = i then lastLeg else Some (legs r' ! (j - 1))) (legs r ! j)) \<and>
         (\<forall>j. i \<le> j \<and> length (legsBeforeAirportAfterArrival r) \<le> j \<and> j < length (legs r) \<longrightarrow>
              legs r' ! j = legs r ! j)"
  using assms
proof (induction X r i lastLeg rule: updateDistancesLoop.induct)
  case (1 X r i lastLeg)
  show ?case
  proof (cases "i < length (legs r)")
    case False
    with "1.prems" have "r' = r" by (simp add: updateDistancesLoop.simps[of X r i])
    moreover from False "1.prems" have "i = length (legs r)" by simp
    ultimately show ?thesis using legsBefore_length_bounds(1) [of r] by auto
  next
    case True
    then obtain b where b: "isAirportAfterArrival r (int i) = Some b"
      using isAirportAfterArrival_in_range by blast
    show ?thesis
    proof (cases b)
      case True
      with b \<open>i < length (legs r)\<close> "1.prems" have "r' = r"
        by (simp add: updateDistancesLoop.simps[of X r i])
      moreover from b True have "length (legsBeforeAirportAfterArrival r) = i"
        by (simp add: legsBefore_length_bounds(3))
      ultimately show ?thesis by auto
    next
      case False
      let ?r = "updateDistanceStep X r i lastLeg"
      let ?u = "updateDistanceAndCourse X (int i) lastLeg (legs r ! i)"
      let ?k = "length (legsBeforeAirportAfterArrival r)"
      from b False have bf: "isAirportAfterArrival r (int i) = Some False" by simp
      with \<open>i < length (legs r)\<close> "1.prems"
      have run: "updateDistancesLoop X ?r (Suc i) (Some (legs ?r ! i)) = Some r'"
        by (simp add: updateDistancesLoop.simps[of X r i])
      have p1: "Suc i \<le> length (legs ?r)"
        using \<open>i < length (legs r)\<close> by (simp add: updateDistanceStep_size)
      note ih = "1.IH" [OF \<open>i < length (legs r)\<close> bf _ run p1]
      have k1: "length (legsBeforeAirportAfterArrival ?r) = ?k"
        by (rule legsBefore_length_frame) (rule updateDistanceStep_frame)+
      have ik: "i < ?k" using bf \<open>i < length (legs r)\<close> by (rule legsBefore_length_bounds(2))
      have li: "legs ?r ! i = ?u"
        using \<open>i < length (legs r)\<close> by (simp add: updateDistanceStep_fields)
      have lj: "legs ?r ! j = legs r ! j" if "j \<noteq> i" for j
        using that by (simp add: updateDistanceStep_fields)
      from ih have c1: "length (legs r') = length (legs r)"
        by (simp add: updateDistanceStep_size)
      from ih have lt: "\<forall>j<Suc i. legs r' ! j = legs ?r ! j" by simp
      have c2: "\<forall>j<i. legs r' ! j = legs r ! j"
        using lt lj by simp
      from lt li have ri: "legs r' ! i = ?u" by simp
      have c3: "\<forall>j. i \<le> j \<and> j < ?k \<longrightarrow>
              legs r' ! j = updateDistanceAndCourse X (int j)
                              (if j = i then lastLeg else Some (legs r' ! (j - 1))) (legs r ! j)"
      proof (intro allI impI)
        fix j assume j: "i \<le> j \<and> j < ?k"
        show "legs r' ! j = updateDistanceAndCourse X (int j)
                              (if j = i then lastLeg else Some (legs r' ! (j - 1))) (legs r ! j)"
        proof (cases "j = i")
          case True
          with ri show ?thesis by simp
        next
          case False
          with j have sj: "Suc i \<le> j \<and> j < length (legsBeforeAirportAfterArrival ?r)"
            by (simp add: k1)
          with ih have e: "legs r' ! j = updateDistanceAndCourse X (int j)
              (if j = Suc i then Some (legs ?r ! i) else Some (legs r' ! (j - 1))) (legs ?r ! j)"
            by blast
          have "(if j = Suc i then Some (legs ?r ! i) else Some (legs r' ! (j - 1)))
              = Some (legs r' ! (j - 1))"
            using li ri by simp
          with e False lj show ?thesis by simp
        qed
      qed
      have c4: "\<forall>j. i \<le> j \<and> ?k \<le> j \<and> j < length (legs r) \<longrightarrow> legs r' ! j = legs r ! j"
      proof (intro allI impI)
        fix j assume j: "i \<le> j \<and> ?k \<le> j \<and> j < length (legs r)"
        with ik have "Suc i \<le> j \<and> length (legsBeforeAirportAfterArrival ?r) \<le> j \<and> j < length (legs ?r)"
          by (simp add: k1 updateDistanceStep_size)
        with ih have "legs r' ! j = legs ?r ! j" by blast
        moreover from j ik have "j \<noteq> i" by simp
        ultimately show "legs r' ! j = legs r ! j" using lj by simp
      qed
      from c1 c2 c3 c4 show ?thesis by blast
    qed
  qed
qed


lemma updateDistancesAndCourse_legs:
  "\<exists>r'. updateDistancesAndCourse X r = Some r' \<and>
        totalDistance r' = specTotalDistance r' \<and>
        map legIdentity (legs r') = map legIdentity (legs r) \<and>
        procedureFrame r' = procedureFrame r \<and>
        (\<forall>j<length (legsBeforeAirportAfterArrival r').
           legs r' ! j = updateDistanceAndCourse X (int j)
                           (if j = 0 then None else Some (legs r' ! (j - 1))) (legs r ! j)) \<and>
        (\<forall>j. length (legsBeforeAirportAfterArrival r') \<le> j \<and> j < length (legs r) \<longrightarrow>
           legs r' ! j = legs r ! j)"
proof -
  let ?r = "r\<lparr>totalDistance := 0\<rparr>"
  from updateDistancesAndCourse_sum [of X r] obtain r' where
    u: "updateDistancesAndCourse X r = Some r'" and t: "totalDistance r' = specTotalDistance r'"
    by blast
  from u have run: "updateDistancesLoop X ?r 0 None = Some r'"
    by (simp add: updateDistancesAndCourse_def)
  from updateDistancesLoop_frame [OF run]
  have f: "procedureFrame r' = procedureFrame r" "map legIdentity (legs r') = map legIdentity (legs r)"
    by (simp_all add: procedureFrame_def)
  have k: "length (legsBeforeAirportAfterArrival r') = length (legsBeforeAirportAfterArrival ?r)"
    by (rule legsBefore_length_frame) (use updateDistancesLoop_frame [OF run] in simp_all)
  from updateDistancesLoop_legs [OF run] have
    a: "\<forall>j. 0 \<le> j \<and> j < length (legsBeforeAirportAfterArrival ?r) \<longrightarrow>
              legs r' ! j = updateDistanceAndCourse X (int j)
                              (if j = 0 then None else Some (legs r' ! (j - 1))) (legs ?r ! j)"
    and b: "\<forall>j. 0 \<le> j \<and> length (legsBeforeAirportAfterArrival ?r) \<le> j \<and> j < length (legs ?r) \<longrightarrow>
              legs r' ! j = legs ?r ! j"
    by simp_all
  show ?thesis
  proof (intro exI conjI allI impI)
    show "updateDistancesAndCourse X r = Some r'" by (rule u)
    show "totalDistance r' = specTotalDistance r'" by (rule t)
    show "map legIdentity (legs r') = map legIdentity (legs r)" by (rule f)
    show "procedureFrame r' = procedureFrame r" by (rule f)
    show "legs r' ! j = updateDistanceAndCourse X (int j)
                           (if j = 0 then None else Some (legs r' ! (j - 1))) (legs r ! j)"
      if "j < length (legsBeforeAirportAfterArrival r')" for j
      using that a by (simp add: k)
    show "legs r' ! j = legs r ! j"
      if "length (legsBeforeAirportAfterArrival r') \<le> j \<and> j < length (legs r)" for j
      using that b by (simp add: k)
  qed
qed

text \<open>
  Claim C4. For every non-empty route the distance pass \<open>updateDistancesAndCourse\<close>
  returns normally. The pass keeps the legs in their order with their identity and keeps
  the flight plan, the offsets and the procedures; every leg before a trailing airport
  after an arrival (the last leg, when it is an airport and the route has an arrival or
  a STAR) is the input leg with its distance and courses recomputed from the updated
  leg before it, and a trailing airport after an arrival is left as it was. Afterwards
  \<open>totalDistance\<close> is the sum of the distances (\<open>getDistanceTo\<close>) of those recomputed
  legs that are not missed approach legs. With the floats read as reals the two are
  equal, so they differ by no more than the tolerance of 1e-3 nm.
\<close>

theorem totalDistance_is_sum:
  assumes "\<not> isEmpty r"
  shows "\<exists>r'. updateDistancesAndCourse X r = Some r' \<and>
           totalDistance r' = specTotalDistance r' \<and>
           \<bar>totalDistance r' - specTotalDistance r'\<bar> \<le> 1 / 1000 \<and>
           map legIdentity (legs r') = map legIdentity (legs r) \<and>
           procedureFrame r' = procedureFrame r \<and>
           (\<forall>j<length (legsBeforeAirportAfterArrival r').
              legs r' ! j = updateDistanceAndCourse X (int j)
                              (if j = 0 then None else Some (legs r' ! (j - 1))) (legs r ! j)) \<and>
           (\<forall>j. length (legsBeforeAirportAfterArrival r') \<le> j \<and> j < length (legs r) \<longrightarrow>
              legs r' ! j = legs r ! j)"
proof -
  from updateDistancesAndCourse_legs [of X r] obtain r' where
    "updateDistancesAndCourse X r = Some r'" "totalDistance r' = specTotalDistance r'"
    "map legIdentity (legs r') = map legIdentity (legs r)"
    "procedureFrame r' = procedureFrame r"
    "\<forall>j<length (legsBeforeAirportAfterArrival r').
           legs r' ! j = updateDistanceAndCourse X (int j)
                           (if j = 0 then None else Some (legs r' ! (j - 1))) (legs r ! j)"
    "\<forall>j. length (legsBeforeAirportAfterArrival r') \<le> j \<and> j < length (legs r) \<longrightarrow>
           legs r' ! j = legs r ! j"
    by blast
  then show ?thesis by (intro exI [of _ r']) simp
qed

lemma arrivalRoute_distances:
  "map_option (\<lambda>r'. (totalDistance r', map distanceTo (legs r'), map position (legs r')))
     (updateDistancesAndCourse flatExt arrivalRoute)
   = Some (2, [0, 1, 1, 1, 5], [(0, 0), (1852, 0), (3704, 0), (5556, 0), (7408, 0)])"
  by (simp add: updateDistancesAndCourse_def updateDistancesLoop.simps updateDistanceStep_def
      isAirportAfterArrival_def hasArrivalProcedure_def hasStarProcedure_def procLegsIsEmpty_def
      routeSize_def atIdx_def updateDistanceAndCourse_def isMissed_def Let_def
      arrivalRoute_def emptyProcedureLegs_def fix_defs)

theorem totalDistance_is_sum_witness:
  "\<not> isEmpty arrivalRoute \<and>
   (\<exists>r'. updateDistancesAndCourse flatExt arrivalRoute = Some r' \<and>
         totalDistance r' = 2 \<and> specTotalDistance r' = 2 \<and>
         map distanceTo (legs r') = [0, 1, 1, 1, 5] \<and>
         map legIdentity (legs r') = map legIdentity (legs arrivalRoute))"
proof -
  have h: "\<not> isEmpty arrivalRoute"
    by (simp add: isEmpty_def arrivalRoute_def testRoute_def)
  from totalDistance_is_sum [OF h, of flatExt]
  obtain r' where r: "updateDistancesAndCourse flatExt arrivalRoute = Some r'"
    and t: "totalDistance r' = specTotalDistance r'"
    and i: "map legIdentity (legs r') = map legIdentity (legs arrivalRoute)" by blast
  from r arrivalRoute_distances have "totalDistance r' = 2" "map distanceTo (legs r') = [0, 1, 1, 1, 5]"
    by simp_all
  with r t i h show ?thesis by simp
qed

subsection \<open>Clearing the STAR\<close>

text \<open>Removing the collected indexes, from the last to the first, keeps the elements at
  the other indexes.\<close>

lemma removeAt_append:
  "i < length xs \<Longrightarrow> removeAt (xs @ ys) i = removeAt xs i @ ys"
  by (simp add: removeAt_def)

lemma length_removeAt:
  "i < length xs \<Longrightarrow> length (removeAt xs i) = length xs - 1"
  by (simp add: removeAt_def)

lemma foldl_removeAt_append:
  "sorted_wrt (>) js \<Longrightarrow> \<forall>j\<in>set js. j < length xs \<Longrightarrow>
     foldl removeAt (xs @ ys) js = foldl removeAt xs js @ ys"
proof (induction js arbitrary: xs)
  case Nil
  then show ?case by simp
next
  case (Cons j js)
  from Cons.prems have j: "j < length xs" by simp
  have "\<forall>k\<in>set js. k < length (removeAt xs j)"
  proof
    fix k assume "k \<in> set js"
    with Cons.prems(1) have "k < j" by simp
    with j show "k < length (removeAt xs j)" by (simp add: length_removeAt)
  qed
  moreover from Cons.prems(1) have "sorted_wrt (>) js" by simp
  ultimately have "foldl removeAt (removeAt xs j @ ys) js = foldl removeAt (removeAt xs j) js @ ys"
    by (rule Cons.IH[rotated])
  with j show ?case by (simp add: removeAt_append)
qed

lemma sorted_desc_filter_rev_upt:
  "sorted_wrt (>) (filter P (rev [0 ..< n]))"
  by (intro sorted_wrt_filter) (simp add: sorted_wrt_rev)

lemma foldl_removeAt_nths:
  "foldl removeAt xs (filter P (rev [0 ..< length xs])) = nths xs {i. \<not> P i}"
proof (induction xs rule: rev_induct)
  case Nil
  then show ?case by simp
next
  case (snoc y ys)
  let ?n = "length ys"
  let ?F = "filter P (rev [0 ..< ?n])"
  have b: "\<forall>j\<in>set ?F. j < length ys" by simp
  have app: "foldl removeAt (ys @ [y]) ?F = foldl removeAt ys ?F @ [y]"
    using sorted_desc_filter_rev_upt b by (rule foldl_removeAt_append)
  show ?case
  proof (cases "P ?n")
    case True
    have "removeAt (ys @ [y]) ?n = ys" by (simp add: removeAt_def)
    with True snoc.IH show ?thesis by (simp add: nths_append)
  next
    case False
    with snoc.IH app show ?thesis by (simp add: nths_append)
  qed
qed

lemma nths_restrict:
  "nths xs {i. i < length xs \<and> i \<in> A} = nths xs A"
proof -
  have "filter (\<lambda>p. snd p \<in> {i. i < length xs \<and> i \<in> A}) (zip xs [0 ..< length xs])
      = filter (\<lambda>p. snd p \<in> A) (zip xs [0 ..< length xs])"
    by (rule filter_cong) (auto dest: set_zip_rightD)
  then show ?thesis by (simp add: nths_def)
qed

lemma foldl_removeAt_filter:
  "foldl removeAt xs (filter (\<lambda>i. P (xs ! i)) (rev [0 ..< length xs])) = filter (\<lambda>x. \<not> P x) xs"
proof -
  have "filter (\<lambda>x. \<not> P x) xs = nths xs {i. i < length xs \<and> i \<in> {i. \<not> P (xs ! i)}}"
    by (simp add: filter_eq_nths)
  also have "\<dots> = nths xs {i. \<not> P (xs ! i)}" by (rule nths_restrict)
  finally show ?thesis by (simp add: foldl_removeAt_nths)
qed

lemma foldl_eraseStep:
  "legs (foldl eraseStep r js) = foldl removeAt (legs r) js \<and>
   entries (flightplan (foldl eraseStep r js)) = foldl removeAt (entries (flightplan r)) js \<and>
   properties (flightplan (foldl eraseStep r js)) = properties (flightplan r) \<and>
   departureLegsOffset (foldl eraseStep r js) = departureLegsOffset r \<and>
   starLegsOffset (foldl eraseStep r js) = starLegsOffset r \<and>
   arrivalLegsOffset (foldl eraseStep r js) = arrivalLegsOffset r \<and>
   departureLegs (foldl eraseStep r js) = departureLegs r \<and>
   starLegs (foldl eraseStep r js) = starLegs r \<and>
   arrivalLegs (foldl eraseStep r js) = arrivalLegs r"
proof (induction js arbitrary: r)
  case Nil
  show ?case by simp
next
  case (Cons j js)
  have s: "legs (eraseStep r j) = removeAt (legs r) j"
    "entries (flightplan (eraseStep r j)) = removeAt (entries (flightplan r)) j"
    "properties (flightplan (eraseStep r j)) = properties (flightplan r)"
    "departureLegsOffset (eraseStep r j) = departureLegsOffset r"
    "starLegsOffset (eraseStep r j) = starLegsOffset r"
    "arrivalLegsOffset (eraseStep r j) = arrivalLegsOffset r"
    "departureLegs (eraseStep r j) = departureLegs r"
    "starLegs (eraseStep r j) = starLegs r"
    "arrivalLegs (eraseStep r j) = arrivalLegs r"
    by (simp_all add: eraseStep_def)
  from Cons.IH [of "eraseStep r j"] show ?case
    by (simp only: foldl_Cons s) 
qed

lemma eraseProcedureLegs_star:
  assumes "length (entries (flightplan r)) = length (legs r)"
  shows "legs (eraseProcedureLegs {PROCEDURE_STAR} r) = filter (\<lambda>l. \<not> isStar l) (legs r)"
    and "entries (flightplan (eraseProcedureLegs {PROCEDURE_STAR} r))
           = nths (entries (flightplan r)) {i. \<not> isStar (legs r ! i)}"
proof -
  have m: "procedureMatches {PROCEDURE_STAR} = isStar"
    by (rule ext) (simp add: procedureMatches_def)
  show "legs (eraseProcedureLegs {PROCEDURE_STAR} r) = filter (\<lambda>l. \<not> isStar l) (legs r)"
    by (simp add: eraseProcedureLegs_def eraseIndexes_def foldl_eraseStep m foldl_removeAt_filter)
  have "foldl removeAt (entries (flightplan r))
          (filter (\<lambda>i. isStar (legs r ! i)) (rev [0 ..< length (entries (flightplan r))]))
        = nths (entries (flightplan r)) {i. \<not> isStar (legs r ! i)}"
    by (rule foldl_removeAt_nths)
  with assms show "entries (flightplan (eraseProcedureLegs {PROCEDURE_STAR} r))
           = nths (entries (flightplan r)) {i. \<not> isStar (legs r ! i)}"
    by (simp add: eraseProcedureLegs_def eraseIndexes_def foldl_eraseStep m)
qed

lemma clearStarProcedure_effect:
  assumes "hasStarProcedure r" and "length (entries (flightplan r)) = length (legs r)"
  shows "\<exists>r'. clearStarProcedure X r = Some r' \<and>
           map legIdentity (legs r') = map legIdentity (filter (\<lambda>l. \<not> isStar l) (legs r)) \<and>
           entries (flightplan r') = nths (entries (flightplan r)) {i. \<not> isStar (legs r ! i)} \<and>
           departureLegsOffset r' = departureLegsOffset r \<and>
           starLegsOffset r' = starLegsOffset r \<and>
           arrivalLegsOffset r' = arrivalLegsOffset r \<and>
           departureLegs r' = departureLegs r \<and>
           arrivalLegs r' = arrivalLegs r \<and>
           \<not> hasStarProcedure r'"
proof -
  let ?q1 = "clearFlightplanProcedureProperties X {PROCEDURE_STAR} (r\<lparr>starLegs := emptyProcedureLegs\<rparr>)"
  let ?q2 = "eraseProcedureLegs {PROCEDURE_STAR} ?q1"
  have q1: "legs ?q1 = legs r" "entries (flightplan ?q1) = entries (flightplan r)"
    "departureLegsOffset ?q1 = departureLegsOffset r" "starLegsOffset ?q1 = starLegsOffset r"
    "arrivalLegsOffset ?q1 = arrivalLegsOffset r" "departureLegs ?q1 = departureLegs r"
    "arrivalLegs ?q1 = arrivalLegs r" "starLegs ?q1 = emptyProcedureLegs"
    by (simp_all add: clearFlightplanProcedureProperties_def)
  from assms(2) have len: "length (entries (flightplan ?q1)) = length (legs ?q1)"
    by (simp only: q1)
  have q2: "legs ?q2 = filter (\<lambda>l. \<not> isStar l) (legs r)"
    "entries (flightplan ?q2) = nths (entries (flightplan r)) {i. \<not> isStar (legs r ! i)}"
    using eraseProcedureLegs_star [OF len] by (simp_all only: q1)
  have q2f: "departureLegsOffset ?q2 = departureLegsOffset r" "starLegsOffset ?q2 = starLegsOffset r"
    "arrivalLegsOffset ?q2 = arrivalLegsOffset r" "departureLegs ?q2 = departureLegs r"
    "arrivalLegs ?q2 = arrivalLegs r" "starLegs ?q2 = emptyProcedureLegs"
    unfolding eraseProcedureLegs_def by (simp_all only: foldl_eraseStep q1)
  from updateAll_frame [of X ?q2] obtain r' where r': "updateAll X ?q2 = Some r'"
    "procedureFrame r' = procedureFrame ?q2" "map legIdentity (legs r') = map legIdentity (legs ?q2)"
    by blast
  from r'(2) have f: "flightplan r' = flightplan ?q2" "departureLegsOffset r' = departureLegsOffset ?q2"
    "starLegsOffset r' = starLegsOffset ?q2" "arrivalLegsOffset r' = arrivalLegsOffset ?q2"
    "departureLegs r' = departureLegs ?q2" "starLegs r' = starLegs ?q2" "arrivalLegs r' = arrivalLegs ?q2"
    by (simp_all add: procedureFrame_def)
  show ?thesis
  proof (intro exI conjI)
    show "clearStarProcedure X r = Some r'"
      using assms(1) r'(1) by (simp add: clearStarProcedure_def)
    show "map legIdentity (legs r') = map legIdentity (filter (\<lambda>l. \<not> isStar l) (legs r))"
      using r'(3) by (simp only: q2)
    show "entries (flightplan r') = nths (entries (flightplan r)) {i. \<not> isStar (legs r ! i)}"
      by (simp only: f q2)
    show "departureLegsOffset r' = departureLegsOffset r" by (simp only: f q2f)
    show "starLegsOffset r' = starLegsOffset r" by (simp only: f q2f)
    show "arrivalLegsOffset r' = arrivalLegsOffset r" by (simp only: f q2f)
    show "departureLegs r' = departureLegs r" by (simp only: f q2f)
    show "arrivalLegs r' = arrivalLegs r" by (simp only: f q2f)
    show "\<not> hasStarProcedure r'"
      by (simp only: hasStarProcedure_def f q2f) (simp add: procLegsIsEmpty_def emptyProcedureLegs_def)
  qed
qed

text \<open>
  Claim C7, as amended. On a route with a STAR whose flight plan entries are parallel
  to its legs, \<open>clearStarProcedure\<close> returns normally; afterwards the legs are the legs
  that are not STAR legs, in their order and with their identity (object type,
  procedure tag, position, procedure leg), the flight plan entries are the entries at
  the indexes of those legs, the departure and arrival procedures are unchanged, the
  three offsets \<open>departureLegsOffset\<close>, \<open>starLegsOffset\<close> and \<open>arrivalLegsOffset\<close> hold
  the values they had before (the clear operations do not touch the offsets), and the
  route has no STAR. Each of the four clear operations returns the route as it is when
  its procedure category is absent.
\<close>

theorem clearStarProcedure_frame:
  "(hasStarProcedure r \<and> length (entries (flightplan r)) = length (legs r) \<longrightarrow>
      (\<exists>r'. clearStarProcedure X r = Some r' \<and>
           map legIdentity (legs r') = map legIdentity (filter (\<lambda>l. \<not> isStar l) (legs r)) \<and>
           entries (flightplan r') = nths (entries (flightplan r)) {i. \<not> isStar (legs r ! i)} \<and>
           departureLegsOffset r' = departureLegsOffset r \<and>
           starLegsOffset r' = starLegsOffset r \<and>
           arrivalLegsOffset r' = arrivalLegsOffset r \<and>
           departureLegs r' = departureLegs r \<and>
           arrivalLegs r' = arrivalLegs r \<and>
           \<not> hasStarProcedure r')) \<and>
   (\<not> hasStarProcedure r \<longrightarrow> clearStarProcedure X r = Some r) \<and>
   (\<not> hasDepartureProcedure r \<longrightarrow> clearDepartureProcedure X r = Some r) \<and>
   (\<not> hasArrivalProcedure r \<longrightarrow> clearApproachAndTransProcedure X r = Some r) \<and>
   (\<not> hasTransitionProcedure r \<longrightarrow> clearTransitionProcedure X r = Some r)"
proof (intro conjI impI)
  assume "hasStarProcedure r \<and> length (entries (flightplan r)) = length (legs r)"
  then show "\<exists>r'. clearStarProcedure X r = Some r' \<and>
           map legIdentity (legs r') = map legIdentity (filter (\<lambda>l. \<not> isStar l) (legs r)) \<and>
           entries (flightplan r') = nths (entries (flightplan r)) {i. \<not> isStar (legs r ! i)} \<and>
           departureLegsOffset r' = departureLegsOffset r \<and>
           starLegsOffset r' = starLegsOffset r \<and>
           arrivalLegsOffset r' = arrivalLegsOffset r \<and>
           departureLegs r' = departureLegs r \<and>
           arrivalLegs r' = arrivalLegs r \<and>
           \<not> hasStarProcedure r'"
    using clearStarProcedure_effect by blast
next
  assume "\<not> hasStarProcedure r"
  then show "clearStarProcedure X r = Some r" by (simp add: clearStarProcedure_def)
next
  assume "\<not> hasDepartureProcedure r"
  then show "clearDepartureProcedure X r = Some r" by (simp add: clearDepartureProcedure_def)
next
  assume "\<not> hasArrivalProcedure r"
  then show "clearApproachAndTransProcedure X r = Some r"
    by (simp add: clearApproachAndTransProcedure_def)
next
  assume "\<not> hasTransitionProcedure r"
  then show "clearTransitionProcedure X r = Some r" by (simp add: clearTransitionProcedure_def)
qed

lemma procedureRoute_hyps:
  "hasStarProcedure procedureRoute"
  "length (entries (flightplan procedureRoute)) = length (legs procedureRoute)"
  by (simp_all add: hasStarProcedure_def procLegsIsEmpty_def procedureRoute_def testRoute_def)

theorem clearStarProcedure_frame_counterexample:
  "hasStarProcedure procedureRoute \<and>
   starLegsOffset procedureRoute = 3 \<and>
   map_option starLegsOffset (clearStarProcedure flatExt procedureRoute) = Some 3 \<and>
   map_option starLegsOffset (clearStarProcedure flatExt procedureRoute) \<noteq> Some INVALID_INDEX_VALUE"
proof -
  from clearStarProcedure_effect [OF procedureRoute_hyps, of flatExt]
  obtain r' where "clearStarProcedure flatExt procedureRoute = Some r'"
    "starLegsOffset r' = starLegsOffset procedureRoute" by blast
  moreover have "starLegsOffset procedureRoute = 3" by (simp add: procedureRoute_def)
  ultimately show ?thesis
    using procedureRoute_hyps(1) by (simp add: INVALID_INDEX_VALUE_def)
qed

theorem clearStarProcedure_frame_witness:
  "hasStarProcedure procedureRoute \<and>
   length (entries (flightplan procedureRoute)) = length (legs procedureRoute) \<and>
   (\<exists>r'. clearStarProcedure flatExt procedureRoute = Some r' \<and>
         map (\<lambda>l. fst (snd (legIdentity l))) (legs r')
           = [None, Some PROCEDURE_SID, None, Some PROCEDURE_APPROACH, None] \<and>
         departureLegsOffset r' = 1 \<and> starLegsOffset r' = 3 \<and> arrivalLegsOffset r' = 5 \<and>
         \<not> hasStarProcedure r') \<and>
   \<not> hasTransitionProcedure procedureRoute \<and>
   clearTransitionProcedure flatExt procedureRoute = Some procedureRoute"
proof -
  note t = clearStarProcedure_frame [of procedureRoute flatExt]
  from t procedureRoute_hyps
  obtain r' where r: "clearStarProcedure flatExt procedureRoute = Some r'"
    and i: "map legIdentity (legs r') = map legIdentity (filter (\<lambda>l. \<not> isStar l) (legs procedureRoute))"
    and o: "departureLegsOffset r' = departureLegsOffset procedureRoute"
       "starLegsOffset r' = starLegsOffset procedureRoute"
       "arrivalLegsOffset r' = arrivalLegsOffset procedureRoute"
    and s: "\<not> hasStarProcedure r'"
    by blast
  have "map (\<lambda>l. fst (snd (legIdentity l))) (legs r') = map (\<lambda>t. fst (snd t)) (map legIdentity (legs r'))"
    by simp
  also have "\<dots> = [None, Some PROCEDURE_SID, None, Some PROCEDURE_APPROACH, None]"
    unfolding i by (simp add: procedureRoute_def testRoute_def testLeg_def isStar_def legIdentity_def)
  finally have tags: "map (\<lambda>l. fst (snd (legIdentity l))) (legs r')
      = [None, Some PROCEDURE_SID, None, Some PROCEDURE_APPROACH, None]" .
  have nt: "\<not> hasTransitionProcedure procedureRoute"
    by (simp add: hasTransitionProcedure_def procedureRoute_def)
  with t have "clearTransitionProcedure flatExt procedureRoute = Some procedureRoute" by blast
  moreover have "departureLegsOffset procedureRoute = 1" "starLegsOffset procedureRoute = 3"
    "arrivalLegsOffset procedureRoute = 5"
    by (simp_all add: procedureRoute_def)
  ultimately show ?thesis
    using procedureRoute_hyps r tags o s nt by simp
qed

subsection \<open>Position at a distance\<close>

lemma findDistanceLeg_index:
  "findDistanceLeg ls d i t = (t', k) \<Longrightarrow> k = INVALID_INDEX_VALUE \<or> (i \<le> k \<and> k < i + int (length ls))"
proof (induction ls arbitrary: i t)
  case Nil
  then show ?case by simp
next
  case (Cons l ls)
  show ?case
  proof (cases "t + distanceTo l > d")
    case True
    with Cons.prems show ?thesis by simp
  next
    case False
    with Cons.prems have "findDistanceLeg ls d (i + 1) (t + distanceTo l) = (t', k)" by simp
    from Cons.IH [OF this] show ?thesis by auto
  qed
qed

lemma skipApproachPoints_total:
  assumes "0 \<le> n" "n < int (length ls)" "\<not> isApproachPoint X (last ls)"
  shows "\<exists>k. skipApproachPoints X ls n = Some k \<and> n \<le> k \<and> k < int (length ls)"
  using assms
proof (induction X ls n rule: skipApproachPoints.induct)
  case (1 X ls n)
  from "1.prems" have l: "atIdx ls n = Some (ls ! nat n)" by (simp add: atIdx_def)
  show ?case
  proof (cases "isApproachPoint X (ls ! nat n) \<and> n < int (length ls)")
    case False
    with l "1.prems" show ?thesis by (simp add: skipApproachPoints.simps[of X ls n])
  next
    case True
    have "n + 1 < int (length ls)"
    proof (rule ccontr)
      assume "\<not> n + 1 < int (length ls)"
      with "1.prems" have "nat n = length ls - 1" by linarith
      moreover from "1.prems" have "ls \<noteq> []" by auto
      ultimately have "ls ! nat n = last ls" by (simp add: last_conv_nth)
      with True "1.prems"(3) show False by simp
    qed
    with "1.IH" [OF l True] "1.prems" obtain k where
      "skipApproachPoints X ls (n + 1) = Some k" "n + 1 \<le> k" "k < int (length ls)"
      by auto
    with l True show ?thesis by (simp add: skipApproachPoints.simps[of X ls n])
  qed
qed

text \<open>Outside the range the result is the empty position; inside the range, on a route
  that does not end in an approach point, the result is a position, which can be the
  invalid default position.\<close>

lemma positionAtDistance_range:
  "(d < 0 \<or> d > totalDistance r \<longrightarrow> positionAtDistance X r d = Some (EMPTY_POS X)) \<and>
   (0 \<le> d \<and> d \<le> totalDistance r \<and> routeSize r \<le> INVALID_INDEX_VALUE \<and>
    (legs r = [] \<or> \<not> isApproachPoint X (last (legs r)))
      \<longrightarrow> (\<exists>p. positionAtDistance X r d = Some p))"
proof (intro conjI impI)
  assume "d < 0 \<or> d > totalDistance r"
  then show "positionAtDistance X r d = Some (EMPTY_POS X)"
    by (auto simp: positionAtDistance_def)
next
  assume a: "0 \<le> d \<and> d \<le> totalDistance r \<and> routeSize r \<le> INVALID_INDEX_VALUE \<and>
    (legs r = [] \<or> \<not> isApproachPoint X (last (legs r)))"
  then have inr: "\<not> (d < 0 \<or> d > totalDistance r)" by auto
  obtain t k where f: "findDistanceLeg (tl (legs r)) d 0 0 = (t, k)" by fastforce
  show "\<exists>p. positionAtDistance X r d = Some p"
  proof (cases "k < routeSize r - 1")
    case False
    with inr f show ?thesis by (simp add: positionAtDistance_def)
  next
    case True
    with a have "k \<noteq> INVALID_INDEX_VALUE" by auto
    with findDistanceLeg_index [OF f] have k: "0 \<le> k" "k < int (length (legs r)) - 1"
      by auto
    then have ne: "legs r \<noteq> []" by auto
    from k have g: "atIdx (legs r) k = Some (legs r ! nat k)"
      "atIdx (legs r) (k + 1) = Some (legs r ! nat (k + 1))"
      by (simp_all add: atIdx_def)
    show ?thesis
    proof (cases "isAnyProcedure (legs r ! nat k)")
      case False
      with inr f True g show ?thesis
        by (simp add: positionAtDistance_def getPositionAt_def)
    next
      case p: True
      from a ne have "\<not> isApproachPoint X (last (legs r))" by simp
      with k have "\<exists>j. skipApproachPoints X (legs r) (k + 1) = Some j \<and> k + 1 \<le> j \<and> j < int (length (legs r))"
        by (intro skipApproachPoints_total) auto
      then obtain j where j: "skipApproachPoints X (legs r) (k + 1) = Some j"
        "k + 1 \<le> j" "j < int (length (legs r))" by blast
      with k have "atIdx (legs r) j = Some (legs r ! nat j)" by (simp add: atIdx_def)
      with inr f True g p j(1) show ?thesis
        by (simp add: positionAtDistance_def)
    qed
  qed
qed

lemma positionAtDistance_range_example:
  "positionAtDistance flatExt (route4\<lparr>totalDistance := 3\<rparr>) (- 1) = Some (EMPTY_POS flatExt) \<and>
   positionAtDistance flatExt (route4\<lparr>totalDistance := 3\<rparr>) 4 = Some (EMPTY_POS flatExt) \<and>
   routeSize (route4\<lparr>totalDistance := 3\<rparr>) \<le> INVALID_INDEX_VALUE \<and>
   \<not> isApproachPoint flatExt (last (legs (route4\<lparr>totalDistance := 3\<rparr>))) \<and>
   (\<exists>p. positionAtDistance flatExt (route4\<lparr>totalDistance := 3\<rparr>) (3 / 2) = Some p \<and>
        posIsValid flatExt p) \<and>
   (\<exists>p. positionAtDistance flatExt (route4\<lparr>totalDistance := 3\<rparr>) 3 = Some p \<and>
        \<not> posIsValid flatExt p)"
proof -
  let ?r = "route4\<lparr>totalDistance := 3\<rparr>"
  note t = positionAtDistance_range [of _ ?r flatExt]
  have s: "routeSize ?r \<le> INVALID_INDEX_VALUE"
    by (simp add: routeSize_def route4_def testRoute_def INVALID_INDEX_VALUE_def)
  have l: "\<not> isApproachPoint flatExt (last (legs ?r))"
    by (simp add: route4_def testRoute_def testLeg_def flatExt_def isAnyProcedure_def)
  have "(- 1 :: real) < 0 \<or> - 1 > totalDistance ?r" by simp
  with t [of "- 1"] have a: "positionAtDistance flatExt ?r (- 1) = Some (EMPTY_POS flatExt)"
    by blast
  have "(4 :: real) < 0 \<or> 4 > totalDistance ?r" by simp
  with t [of 4] have b: "positionAtDistance flatExt ?r 4 = Some (EMPTY_POS flatExt)"
    by blast
  have "0 \<le> (3 / 2 :: real) \<and> 3 / 2 \<le> totalDistance ?r" by simp
  with t [of "3 / 2"] s l obtain p where p: "positionAtDistance flatExt ?r (3 / 2) = Some p"
    by blast
  have "positionAtDistance flatExt ?r (3 / 2) = Some (1500, 0)"
    by (simp add: positionAtDistance_def routeSize_def atIdx_def getPositionAt_def
        isAnyProcedure_def fix_defs)
  with p have pv: "posIsValid flatExt p"
    by (simp add: flatExt_def flatInvalidPos_def INVALID_DISTANCE_VALUE_def)
  have "0 \<le> (3 :: real) \<and> 3 \<le> totalDistance ?r" by simp
  with t [of 3] s l obtain q where q: "positionAtDistance flatExt ?r 3 = Some q"
    by blast
  have "positionAtDistance flatExt ?r 3 = Some flatInvalidPos"
    by (simp add: positionAtDistance_def routeSize_def atIdx_def getPositionAt_def
        isAnyProcedure_def fix_defs)
  with q have qv: "\<not> posIsValid flatExt q"
    by (simp add: flatExt_def)
  from a b s l p pv q qv show ?thesis by blast
qed

text \<open>
  Claim C5. \<open>positionAtDistance\<close> returns the empty position \<open>EMPTY_POS\<close>, as a value,
  whenever the distance is negative or exceeds the total distance of the route, and for
  a distance inside the range it is to return a position whose validity the caller
  checks. The loop that skips approach points reads \<open>at(foundIndex)\<close> before it tests
  \<open>foundIndex < size()\<close>: on the route of an airport, an approach leg and an approach
  initial fix as the last leg, with the total distance 2 and the distance 1.5 inside the
  range, the search finds the leg pair from index 1, the skip runs from index 2 past the
  last leg and reads \<open>at(3)\<close> outside the list, so the call fails in the container
  instead of returning a position.
\<close>

theorem positionAtDistance_reads_past_end:
  "routeSize approachEndRoute = 3 \<and>
   (0 :: real) \<le> 3 / 2 \<and> 3 / 2 \<le> totalDistance approachEndRoute \<and>
   isApproachPoint flatExt (last (legs approachEndRoute)) \<and>
   findDistanceLeg (tl (legs approachEndRoute)) (3 / 2) 0 0 = (2, 1) \<and>
   map_option isAnyProcedure (atIdx (legs approachEndRoute) 1) = Some True \<and>
   atIdx (legs approachEndRoute) 3 = None \<and>
   skipApproachPoints flatExt (legs approachEndRoute) 2 = None \<and>
   positionAtDistance flatExt approachEndRoute (3 / 2) = None"
  by (simp add: positionAtDistance_def skipApproachPoints.simps routeSize_def atIdx_def
      getPositionAt_def isAnyProcedure_def approachEndRoute_def fix_defs)

subsection \<open>Seeding the active leg\<close>

text \<open>For a non-empty route and a valid sample, a call that returns leaves an index of the
  route as the active leg, never the invalid sentinel; the nearest-segment search returns
  either the invalid index or the index of a valid segment within 100 nm whose absolute
  cross-track distance is minimal.\<close>

lemma updateActiveLegAndPos_never_inactive:
  assumes "\<not> isEmpty r" "posCourseIsValid X pc" "routeSize r \<le> INVALID_INDEX_VALUE"
    and "updateActiveLegAndPos X r pc = Some r'"
  shows "0 \<le> activeLeg r' \<and> activeLeg r' < routeSize r \<and> activeLeg r' \<noteq> INVALID_INDEX_VALUE"
proof -
  have adv: "0 \<le> activeLeg r' \<and> activeLeg r' < routeSize r"
    if q: "advanceActiveLeg X q pc = Some r'" "0 \<le> activeLeg q" "activeLeg q < routeSize q"
      "routeSize q = routeSize r"
    for q
  proof -
    from advance_cases [OF q(2,3), of X pc]
    consider "advanceActiveLeg X q pc = Some q"
      | n where "activeLeg q < n" "n < routeSize q"
          "advanceActiveLeg X q pc =
             Some (q\<lparr>activeLeg := n,
                     activeLegResult := distanceMeterToLine X (pos pc)
                        (position (legs q ! nat (n - 1))) (position (legs q ! nat n))\<rparr>)"
      by blast
    then show ?thesis
    proof cases
      case 1
      with q show ?thesis by simp
    next
      case 2
      with q(1) have "activeLeg r' = n" by auto
      with 2 q show ?thesis by simp
    qed
  qed
  define a0 where "a0 = (if activeLeg r = INVALID_INDEX_VALUE then snd (nearestAllLegIndex X r pc)
                  else activeLeg r)"
  define a1 where "a1 = (if a0 \<ge> routeSize r then routeSize r - 1 else a0)"
  define a2 where "a2 = (if a1 = 0 then 1 else a1)"
  have rng: "0 \<le> activeLeg r' \<and> activeLeg r' < routeSize r"
  proof (cases "routeSize r = 1")
    case True
    let ?q = "\<lambda>f. r\<lparr>activePos := pc, activeLeg := 0,
                    activeLegResult := distanceMeterToLine X (pos pc) f f\<rparr>"
    from assms(1,2) True have "updateActiveLegAndPos X r pc =
        getPositionAt r 0 \<bind> (\<lambda>f. advanceActiveLeg X (?q f) pc)"
      by (simp add: updateActiveLegAndPos_def Let_def)
    with assms(4) obtain f where "advanceActiveLeg X (?q f) pc = Some r'"
      by (auto split: bind_splits)
    moreover have "activeLeg (?q f) = 0" "routeSize (?q f) = routeSize r"
      by (simp_all add: routeSize_def)
    ultimately show ?thesis using True adv [of "?q f"] by simp
  next
    case False
    let ?q = "\<lambda>q1 q2. r\<lparr>activePos := pc, activeLeg := a2,
                    activeLegResult := distanceMeterToLine X (pos pc) q1 q2\<rparr>"
    from assms(1,2) False have "updateActiveLegAndPos X r pc =
        getPositionAt r (a2 - 1) \<bind> (\<lambda>q1. getPositionAt r a2 \<bind> (\<lambda>q2.
          advanceActiveLeg X (?q q1 q2) pc))"
      by (simp add: updateActiveLegAndPos_def Let_def a0_def a1_def a2_def)
    with assms(4) obtain q1 q2 where g: "getPositionAt r (a2 - 1) = Some q1"
      "getPositionAt r a2 = Some q2" "advanceActiveLeg X (?q q1 q2) pc = Some r'"
      by (auto split: bind_splits)
    from g(1,2) have "0 \<le> a2" "a2 < routeSize r"
      by (auto simp: getPositionAt_def atIdx_def routeSize_def split: if_splits)
    moreover have "activeLeg (?q q1 q2) = a2" "routeSize (?q q1 q2) = routeSize r"
      by (simp_all add: routeSize_def)
    ultimately show ?thesis using g(3) adv [of "?q q1 q2"] by simp
  qed
  with assms(3) show ?thesis by auto
qed


lemma nearest_scan:
  assumes "foldl (nearestStep X ls p)
             (INVALID_DISTANCE_VALUE, INVALID_DISTANCE_VALUE, INVALID_INDEX_VALUE) [1 ..< n] = (m, c, k)"
  shows "(\<forall>j. 1 \<le> j \<and> j < n \<and>
              status (distanceMeterToLine X p (position (ls ! (j - 1))) (position (ls ! j))) \<noteq> INVALID
            \<longrightarrow> m \<le> \<bar>distance (distanceMeterToLine X p (position (ls ! (j - 1))) (position (ls ! j)))\<bar>) \<and>
         ((k = INVALID_INDEX_VALUE \<and> c = INVALID_DISTANCE_VALUE \<and> m = INVALID_DISTANCE_VALUE) \<or>
          (\<exists>i. 1 \<le> i \<and> i < n \<and> k = int i \<and>
               status (distanceMeterToLine X p (position (ls ! (i - 1))) (position (ls ! i))) \<noteq> INVALID \<and>
               c = distance (distanceMeterToLine X p (position (ls ! (i - 1))) (position (ls ! i))) \<and>
               m = \<bar>c\<bar> \<and> m < INVALID_DISTANCE_VALUE))"
  using assms
proof (induction n arbitrary: m c k)
  case 0
  then show ?case by simp
next
  case (Suc n)
  show ?case
  proof (cases "n = 0")
    case True
    with Suc.prems show ?thesis by simp
  next
    case False
    then have u: "[1 ..< Suc n] = [1 ..< n] @ [n]" by simp
    obtain m0 c0 k0 where f: "foldl (nearestStep X ls p)
        (INVALID_DISTANCE_VALUE, INVALID_DISTANCE_VALUE, INVALID_INDEX_VALUE) [1 ..< n] = (m0, c0, k0)"
      using prod_cases3 by blast
    note ih = Suc.IH [OF f]
    let ?d = "distanceMeterToLine X p (position (ls ! (n - 1))) (position (ls ! n))"
    from Suc.prems have "foldl (nearestStep X ls p)
        (INVALID_DISTANCE_VALUE, INVALID_DISTANCE_VALUE, INVALID_INDEX_VALUE) ([1 ..< n] @ [n]) = (m, c, k)"
      by (simp only: u)
    with f have st: "nearestStep X ls p (m0, c0, k0) n = (m, c, k)"
      by (simp only: foldl_append foldl_Cons foldl_Nil)
    show ?thesis
    proof (cases "status ?d \<noteq> INVALID \<and> \<bar>distance ?d\<bar> < m0")
      case True
      with st have e: "m = \<bar>distance ?d\<bar>" "c = distance ?d" "k = int n"
        by (auto simp: nearestStep_def Let_def)
      from ih True have lt: "m < INVALID_DISTANCE_VALUE"
        unfolding e by auto
      have "\<forall>j. 1 \<le> j \<and> j < Suc n \<and>
              status (distanceMeterToLine X p (position (ls ! (j - 1))) (position (ls ! j))) \<noteq> INVALID
            \<longrightarrow> m \<le> \<bar>distance (distanceMeterToLine X p (position (ls ! (j - 1))) (position (ls ! j)))\<bar>"
      proof (intro allI impI)
        fix j
        assume j: "1 \<le> j \<and> j < Suc n \<and>
              status (distanceMeterToLine X p (position (ls ! (j - 1))) (position (ls ! j))) \<noteq> INVALID"
        show "m \<le> \<bar>distance (distanceMeterToLine X p (position (ls ! (j - 1))) (position (ls ! j)))\<bar>"
        proof (cases "j = n")
          case True
          then show ?thesis by (simp add: e)
        next
          case False
          with j have "j < n" by simp
          with j ih have "m0 \<le> \<bar>distance (distanceMeterToLine X p (position (ls ! (j - 1))) (position (ls ! j)))\<bar>"
            by blast
          with True show ?thesis unfolding e by linarith
        qed
      qed
      moreover from True False lt have "\<exists>i. 1 \<le> i \<and> i < Suc n \<and> k = int i \<and>
               status (distanceMeterToLine X p (position (ls ! (i - 1))) (position (ls ! i))) \<noteq> INVALID \<and>
               c = distance (distanceMeterToLine X p (position (ls ! (i - 1))) (position (ls ! i))) \<and>
               m = \<bar>c\<bar> \<and> m < INVALID_DISTANCE_VALUE"
        by (intro exI [of _ n]) (simp add: e)
      ultimately show ?thesis by blast
    next
      case F: False
      with st have e: "m = m0" "c = c0" "k = k0"
        by (auto simp: nearestStep_def Let_def)
      have "\<forall>j. 1 \<le> j \<and> j < Suc n \<and>
              status (distanceMeterToLine X p (position (ls ! (j - 1))) (position (ls ! j))) \<noteq> INVALID
            \<longrightarrow> m \<le> \<bar>distance (distanceMeterToLine X p (position (ls ! (j - 1))) (position (ls ! j)))\<bar>"
      proof (intro allI impI)
        fix j
        assume j: "1 \<le> j \<and> j < Suc n \<and>
              status (distanceMeterToLine X p (position (ls ! (j - 1))) (position (ls ! j))) \<noteq> INVALID"
        show "m \<le> \<bar>distance (distanceMeterToLine X p (position (ls ! (j - 1))) (position (ls ! j)))\<bar>"
        proof (cases "j = n")
          case True
          with j F show ?thesis by (auto simp: e)
        next
          case False
          with j have "j < n" by simp
          with j ih show ?thesis unfolding e by blast
        qed
      qed
      moreover from ih have "(k = INVALID_INDEX_VALUE \<and> c = INVALID_DISTANCE_VALUE \<and> m = INVALID_DISTANCE_VALUE) \<or>
          (\<exists>i. 1 \<le> i \<and> i < Suc n \<and> k = int i \<and>
               status (distanceMeterToLine X p (position (ls ! (i - 1))) (position (ls ! i))) \<noteq> INVALID \<and>
               c = distance (distanceMeterToLine X p (position (ls ! (i - 1))) (position (ls ! i))) \<and>
               m = \<bar>c\<bar> \<and> m < INVALID_DISTANCE_VALUE)"
        unfolding e using less_Suc_eq by blast
      ultimately show ?thesis by blast
    qed
  qed
qed

lemma nearestAllLegIndex_nearest:
  assumes "nearestAllLegIndex X r pc = (c, k)" and "k \<noteq> INVALID_INDEX_VALUE"
  shows "\<exists>i. 1 \<le> i \<and> i < length (legs r) \<and> k = int i \<and>
           status (distanceMeterToLine X (pos pc) (position (legs r ! (i - 1))) (position (legs r ! i))) \<noteq> INVALID \<and>
           c = distance (distanceMeterToLine X (pos pc) (position (legs r ! (i - 1))) (position (legs r ! i))) \<and>
           \<bar>c\<bar> \<le> nmToMeter X 100 \<and>
           (\<forall>j. 1 \<le> j \<and> j < length (legs r) \<and>
                status (distanceMeterToLine X (pos pc) (position (legs r ! (j - 1))) (position (legs r ! j))) \<noteq> INVALID
              \<longrightarrow> \<bar>c\<bar> \<le> \<bar>distance (distanceMeterToLine X (pos pc) (position (legs r ! (j - 1))) (position (legs r ! j)))\<bar>)"
proof -
  obtain m0 c0 k0 where f: "foldl (nearestStep X (legs r) (pos pc))
        (INVALID_DISTANCE_VALUE, INVALID_DISTANCE_VALUE, INVALID_INDEX_VALUE) [1 ..< length (legs r)] = (m0, c0, k0)"
    using prod_cases3 by blast
  note sc = nearest_scan [OF f]
  from assms f have v: "posCourseIsValid X pc"
    by (auto simp: nearestAllLegIndex_def split: if_splits)
  with assms f have fin: "\<not> (c0 < INVALID_DISTANCE_VALUE \<and> \<bar>c0\<bar> > nmToMeter X 100)" "c = c0" "k = k0"
    by (auto simp: nearestAllLegIndex_def split: if_splits)
  with assms(2) sc obtain i where i: "1 \<le> i" "i < length (legs r)" "k0 = int i"
    "status (distanceMeterToLine X (pos pc) (position (legs r ! (i - 1))) (position (legs r ! i))) \<noteq> INVALID"
    "c0 = distance (distanceMeterToLine X (pos pc) (position (legs r ! (i - 1))) (position (legs r ! i)))"
    "m0 = \<bar>c0\<bar>" "m0 < INVALID_DISTANCE_VALUE"
    by blast
  from i(6,7) have "c0 < INVALID_DISTANCE_VALUE" by linarith
  with fin(1) have near: "\<bar>c0\<bar> \<le> nmToMeter X 100" by simp
  from sc i(6) have mn: "\<forall>j. 1 \<le> j \<and> j < length (legs r) \<and>
                status (distanceMeterToLine X (pos pc) (position (legs r ! (j - 1))) (position (legs r ! j))) \<noteq> INVALID
              \<longrightarrow> \<bar>c0\<bar> \<le> \<bar>distance (distanceMeterToLine X (pos pc) (position (legs r ! (j - 1))) (position (legs r ! j)))\<bar>"
    by simp
  show ?thesis
    unfolding fin(2,3) using i(1-5) near mn by blast
qed

text \<open>
  Claim C3. A route with no active leg is seeded by \<open>nearestAllLegIndex\<close>, which returns
  the index of the nearest valid segment, and the invalid index when that segment is
  farther away than 100 nm. The update then clamps every index at or above \<open>size()\<close> to
  the last leg, the invalid index included: on the route of the two waypoints A and B,
  with no active leg and a sample 300 km abeam of the segment (more than 100 nm), the
  search returns the invalid index and the update ends with the active leg 1, not with
  the state of no active leg.
\<close>

theorem seed_too_far_keeps_last_leg:
  "activeLeg route2 = INVALID_INDEX_VALUE \<and>
   posCourseIsValid flatExt \<lparr>pos = (500, 300000), course = 90\<rparr> \<and>
   \<bar>distance (flatDistance (500, 300000) (0, 0) (1000, 0))\<bar> > nmToMeter flatExt 100 \<and>
   nearestAllLegIndex flatExt route2 \<lparr>pos = (500, 300000), course = 90\<rparr>
     = (INVALID_DISTANCE_VALUE, INVALID_INDEX_VALUE) \<and>
   map_option activeLeg
     (updateActiveLegAndPos flatExt route2 \<lparr>pos = (500, 300000), course = 90\<rparr>) = Some 1 \<and>
   map_option activeLeg
     (updateActiveLegAndPos flatExt route2 \<lparr>pos = (500, 300000), course = 90\<rparr>)
     \<noteq> Some INVALID_INDEX_VALUE"
  by (simp add: run_defs fix_defs nearestAllLegIndex_def nearestStep_def)

end
